theory Spec2Isabelle
  imports Main "HOL-Library.AList" "HOL-Library.Char_ord" "HOL-Library.List_Lexorder"
    "HOL-Library.Multiset" "HOL-Library.Sublist" "HOL-Library.Word"
begin

chapter \<open>The consumer-side reference resolution core of dubbo-go\<close>

text \<open>
  A shallow embedding of the URL descriptor (package common), of the service instance
  (package registry), of the nacos service discovery adapter (package registry/nacos)
  and of the reference configuration (package config).

  Conventions of the embedding:
  \<^item> a Go \<open>string\<close> is a byte sequence: \<^typ>\<open>string\<close>;
  \<^item> a Go map is an association list with distinct keys; a \<open>range\<close> over the map visits
    the entries in the order of the list, and a theorem that holds for every list holds
    for every iteration order; a nil map and an empty map are both the empty list
    (the source guards every write to a map that may be nil with a nil check);
  \<^item> a panic is a value of type \<open>panic\<close>, and a function that can panic returns
    \<open>panic + 'a\<close>;
  \<^item> a pointer that the source tests against nil, or dereferences where it can be nil,
    is an \<open>option\<close>.
\<close>

section \<open>Panics\<close>

text \<open>
  \<open>OutOfMemory\<close> is the fatal error \<open>runtime: out of memory\<close>: it is no panic that a
  deferred function could recover, but it ends the program as a panic does.
\<close>

datatype panic =
    NilPointerDereference
  | IndexOutOfRange
  | MeshProtocolPanic string
  | MeshProvidedByPanic
  | URLConfigurationPanic string
  | ClusterPanic string
  | MakeSliceCapOutOfRange
  | OutOfMemory
  | IntegerDivideByZero

section \<open>Standard library: package strings\<close>

text \<open>\<open>strings.Contains(s, substr)\<close>.\<close>

definition strings_Contains :: "string \<Rightarrow> string \<Rightarrow> bool" where
  "strings_Contains s substr = sublist substr s"

text \<open>\<open>strings.HasPrefix\<close> and \<open>strings.TrimPrefix\<close>.\<close>

definition strings_HasPrefix :: "string \<Rightarrow> string \<Rightarrow> bool" where
  "strings_HasPrefix s pre = prefix pre s"

definition strings_TrimPrefix :: "string \<Rightarrow> string \<Rightarrow> string" where
  "strings_TrimPrefix s pre = (if strings_HasPrefix s pre then drop (length pre) s else s)"

text \<open>
  \<open>strings.Split(s, sep)\<close> for a separator of one byte, which is what every call in the
  source passes (\<open>","\<close> and \<open>":"\<close>): the result is never empty.
\<close>

fun strings_Split :: "string \<Rightarrow> char \<Rightarrow> string list" where
  "strings_Split [] sep = [[]]"
| "strings_Split (c # cs) sep =
     (if c = sep then [] # strings_Split cs sep
      else (case strings_Split cs sep of
              [] \<Rightarrow> [[c]]
            | w # ws \<Rightarrow> (c # w) # ws))"

text \<open>\<open>strings.Trim(s, " ")\<close>: leading and trailing spaces removed.\<close>

definition strings_Trim_space :: "string \<Rightarrow> string" where
  "strings_Trim_space s =
     rev (dropWhile (\<lambda>c. c = CHR '' '') (rev (dropWhile (\<lambda>c. c = CHR '' '') s)))"

section \<open>Constants of package constant\<close>

text \<open>
  Modelled from the spec: package \<open>common/constant\<close> is not among the source files.
  The parameter keys are the ones the specification names (section 3, section 6 and the
  testable properties): \<open>interface\<close>, \<open>group\<close>, \<open>version\<close>, \<open>timestamp\<close>,
  \<open>remote.timestamp\<close>, \<open>loadbalance\<close>, \<open>cluster\<close>, \<open>retries\<close>, \<open>timeout\<close>,
  \<open>registry.group\<close>, \<open>registry.weight\<close>; the path separator is \<open>/\<close>.
\<close>

definition InterfaceKey :: string where "InterfaceKey = ''interface''"
definition GroupKey :: string where "GroupKey = ''group''"
definition VersionKey :: string where "VersionKey = ''version''"
definition TimestampKey :: string where "TimestampKey = ''timestamp''"
definition RemoteTimestampKey :: string where "RemoteTimestampKey = ''remote.timestamp''"
definition LoadbalanceKey :: string where "LoadbalanceKey = ''loadbalance''"
definition ClusterKey :: string where "ClusterKey = ''cluster''"
definition RetriesKey :: string where "RetriesKey = ''retries''"
definition TimeoutKey :: string where "TimeoutKey = ''timeout''"
definition RegistryGroupKey :: string where "RegistryGroupKey = ''registry.group''"
definition PathSeparator :: string where "PathSeparator = ''/''"

text \<open>\<open>PROTOCOL = "protocol"\<close> is declared in the source itself.\<close>

definition PROTOCOL :: string where "PROTOCOL = ''protocol''"

section \<open>Standard library: \<open>url.Values\<close>\<close>

text \<open>
  \<open>url.Values\<close> is \<open>map[string][]string\<close>. \<open>Get\<close> returns the first value of the key,
  or the empty string when the key is absent or its slice is empty; \<open>Set\<close> replaces the
  slice by a singleton; \<open>Add\<close> appends; \<open>Del\<close> removes the key.
\<close>

type_synonym Values = "(string \<times> string list) list"

definition Values_Get :: "Values \<Rightarrow> string \<Rightarrow> string" where
  "Values_Get v key =
     (case map_of v key of
        None \<Rightarrow> ''''
      | Some vs \<Rightarrow> (case vs of [] \<Rightarrow> '''' | x # _ \<Rightarrow> x))"

definition Values_Set :: "Values \<Rightarrow> string \<Rightarrow> string \<Rightarrow> Values" where
  "Values_Set v key val = AList.update key [val] v"

definition Values_Add :: "Values \<Rightarrow> string \<Rightarrow> string \<Rightarrow> Values" where
  "Values_Add v key val =
     AList.update key ((case map_of v key of None \<Rightarrow> [] | Some vs \<Rightarrow> vs) @ [val]) v"

definition Values_Del :: "Values \<Rightarrow> string \<Rightarrow> Values" where
  "Values_Del v key = AList.delete key v"

section \<open>Standard library: packages net/url, net and strconv\<close>

text \<open>
  \<open>NewURL\<close> and \<open>URL.String\<close> call \<open>url.QueryUnescape\<close>, \<open>url.Parse\<close>, \<open>url.ParseQuery\<close>,
  \<open>url.Values.Encode\<close> and \<open>net.SplitHostPort\<close> of the Go standard library. The functions
  below follow the library's sources (Go 1.21), function by function and under its names.
  An error is \<open>None\<close>.
\<close>

subsection \<open>More of package strings\<close>

text \<open>
  \<open>strings.Cut(s, sep)\<close>, \<open>strings.Index(s, sep)\<close> and \<open>strings.LastIndex(s, sep)\<close> for a
  separator of one byte, and \<open>strings.Index\<close> for a separator that is a string
  (\<open>strings_IndexS\<close>); \<open>strings.HasSuffix\<close>; \<open>strings.ToLower\<close> on ASCII.
\<close>

definition strings_Cut :: "string \<Rightarrow> char \<Rightarrow> string \<times> string \<times> bool" where
  "strings_Cut s sep =
     (takeWhile (\<lambda>c. c \<noteq> sep) s, drop 1 (dropWhile (\<lambda>c. c \<noteq> sep) s), sep \<in> set s)"

definition strings_Index :: "string \<Rightarrow> char \<Rightarrow> nat option" where
  "strings_Index s sep = (if sep \<in> set s then Some (length (takeWhile (\<lambda>c. c \<noteq> sep) s)) else None)"

definition strings_LastIndex :: "string \<Rightarrow> char \<Rightarrow> nat option" where
  "strings_LastIndex s sep =
     (if sep \<in> set s then Some (length s - 1 - length (takeWhile (\<lambda>c. c \<noteq> sep) (rev s))) else None)"

fun strings_IndexS :: "string \<Rightarrow> string \<Rightarrow> nat option" where
  "strings_IndexS [] substr = (if substr = [] then Some 0 else None)"
| "strings_IndexS (c # cs) substr =
     (if prefix substr (c # cs) then Some 0 else map_option Suc (strings_IndexS cs substr))"

definition strings_HasSuffix :: "string \<Rightarrow> string \<Rightarrow> bool" where
  "strings_HasSuffix s suf = suffix suf s"

definition strings_ToLower :: "string \<Rightarrow> string" where
  "strings_ToLower s =
     map (\<lambda>c. if CHR ''A'' \<le> c \<and> c \<le> CHR ''Z'' then char_of (of_char c + (32::nat)) else c) s"

text \<open>\<open>strings.Join\<close> of two strings with a separator.\<close>

definition strings_Join2 :: "string \<Rightarrow> string \<Rightarrow> string \<Rightarrow> string" where
  "strings_Join2 a b sep = a @ sep @ b"

subsection \<open>Escaping\<close>

datatype encoding =
  encodePath | encodePathSegment | encodeHost | encodeZone | encodeUserPassword
  | encodeQueryComponent | encodeFragment

definition ishex :: "char \<Rightarrow> bool" where
  "ishex c = ((CHR ''0'' \<le> c \<and> c \<le> CHR ''9'') \<or> (CHR ''a'' \<le> c \<and> c \<le> CHR ''f'')
     \<or> (CHR ''A'' \<le> c \<and> c \<le> CHR ''F''))"

definition unhex :: "char \<Rightarrow> nat" where
  "unhex c =
     (if CHR ''0'' \<le> c \<and> c \<le> CHR ''9'' then of_char c - of_char CHR ''0''
      else if CHR ''a'' \<le> c \<and> c \<le> CHR ''f'' then of_char c - of_char CHR ''a'' + 10
      else if CHR ''A'' \<le> c \<and> c \<le> CHR ''F'' then of_char c - of_char CHR ''A'' + 10
      else 0)"

definition is_alnum :: "char \<Rightarrow> bool" where
  "is_alnum c = ((CHR ''a'' \<le> c \<and> c \<le> CHR ''z'') \<or> (CHR ''A'' \<le> c \<and> c \<le> CHR ''Z'')
     \<or> (CHR ''0'' \<le> c \<and> c \<le> CHR ''9''))"

text \<open>\<open>shouldEscape(c, mode)\<close>, with the cases in the order of the library.\<close>

definition shouldEscape :: "char \<Rightarrow> encoding \<Rightarrow> bool" where
  "shouldEscape c mode =
     (if is_alnum c then False
      else if (mode = encodeHost \<or> mode = encodeZone)
              \<and> c \<in> set (''!$&'' @ [CHR 0x27] @ ''()*+,;=:[]<>'' @ [CHR 0x22]) then False
      else if c \<in> set ''-_.~'' then False
      else if c \<in> set ''$&+,/:;=?@'' \<and> mode = encodePath then c = CHR ''?''
      else if c \<in> set ''$&+,/:;=?@'' \<and> mode = encodePathSegment then c \<in> set ''/;,?''
      else if c \<in> set ''$&+,/:;=?@'' \<and> mode = encodeUserPassword then c \<in> set ''@/?:''
      else if c \<in> set ''$&+,/:;=?@'' \<and> mode = encodeQueryComponent then True
      else if c \<in> set ''$&+,/:;=?@'' \<and> mode = encodeFragment then False
      else if mode = encodeFragment \<and> c \<in> set ''!()*'' then False
      else True)"

text \<open>
  \<open>unescape(s, mode)\<close>. The library validates the whole string in a first pass and decodes
  in a second; the result is the same when every error is \<open>None\<close>.
\<close>

fun unescape :: "string \<Rightarrow> encoding \<Rightarrow> string option" where
  "unescape [] mode = Some []"
| "unescape (c # cs) mode =
     (if c = CHR ''%'' then
        (case cs of
           h1 # h2 # rest \<Rightarrow>
             (let v = char_of (16 * unhex h1 + unhex h2)
              in if \<not> ishex h1 \<or> \<not> ishex h2 then None
                 else if mode = encodeHost \<and> unhex h1 < 8 \<and> [c, h1, h2] \<noteq> ''%25'' then None
                 else if mode = encodeZone \<and> [c, h1, h2] \<noteq> ''%25'' \<and> v \<noteq> CHR '' ''
                         \<and> shouldEscape v encodeHost then None
                 else map_option ((#) v) (unescape rest mode))
         | _ \<Rightarrow> None)
      else if c = CHR ''+'' then
        map_option ((#) (if mode = encodeQueryComponent then CHR '' '' else CHR ''+'')) (unescape cs mode)
      else if (mode = encodeHost \<or> mode = encodeZone) \<and> c < CHR 0x80 \<and> shouldEscape c encodeHost
        then None
      else map_option ((#) c) (unescape cs mode))"

definition QueryUnescape :: "string \<Rightarrow> string option" where
  "QueryUnescape s = unescape s encodeQueryComponent"

definition upperhex :: "nat \<Rightarrow> char" where
  "upperhex n = ''0123456789ABCDEF'' ! n"

text \<open>\<open>escape(s, mode)\<close>: a space becomes \<open>+\<close> in a query component, another byte that must
  be escaped becomes \<open>%XX\<close>.\<close>

definition escape :: "string \<Rightarrow> encoding \<Rightarrow> string" where
  "escape s mode =
     concat (map (\<lambda>c. if shouldEscape c mode
                       then (if c = CHR '' '' \<and> mode = encodeQueryComponent then ''+''
                             else [CHR ''%'', upperhex (of_char c div 16), upperhex (of_char c mod 16)])
                       else [c]) s)"

definition QueryEscape :: "string \<Rightarrow> string" where
  "QueryEscape s = escape s encodeQueryComponent"

subsection \<open>\<open>url.Parse\<close>\<close>

text \<open>
  The fields of \<open>url.URL\<close> that \<open>Parse\<close> fills and \<open>NewURL\<close> reads. \<open>User\<close> is a pointer to a
  \<open>Userinfo\<close>: the user name and the password when one is set.
\<close>

record url_URL =
  u_Scheme :: string
  u_Opaque :: string
  u_User :: "(string \<times> string option) option"
  u_Host :: string
  u_Path :: string
  u_ForceQuery :: bool
  u_RawQuery :: string
  u_Fragment :: string

definition url_URL_zero :: url_URL where
  "url_URL_zero = \<lparr>u_Scheme = '''', u_Opaque = '''', u_User = None, u_Host = '''', u_Path = '''',
     u_ForceQuery = False, u_RawQuery = '''', u_Fragment = ''''\<rparr>"

text \<open>\<open>User.Username()\<close> and \<open>User.Password()\<close>, which accept a nil receiver.\<close>

definition Userinfo_Username :: "(string \<times> string option) option \<Rightarrow> string" where
  "Userinfo_Username u = (case u of None \<Rightarrow> '''' | Some (name, _) \<Rightarrow> name)"

definition Userinfo_Password :: "(string \<times> string option) option \<Rightarrow> string" where
  "Userinfo_Password u = (case u of None \<Rightarrow> '''' | Some (_, None) \<Rightarrow> '''' | Some (_, Some p) \<Rightarrow> p)"

definition stringContainsCTLByte :: "string \<Rightarrow> bool" where
  "stringContainsCTLByte s = list_ex (\<lambda>b. b < CHR 0x20 \<or> b = CHR 0x7F) s"

text \<open>\<open>getScheme\<close>: the loop over the bytes, with the index \<open>i\<close> of the byte at hand.\<close>

fun getScheme_loop :: "nat \<Rightarrow> string \<Rightarrow> string \<Rightarrow> (string \<times> string) option" where
  "getScheme_loop i rawURL [] = Some ('''', rawURL)"
| "getScheme_loop i rawURL (c # cs) =
     (if (CHR ''a'' \<le> c \<and> c \<le> CHR ''z'') \<or> (CHR ''A'' \<le> c \<and> c \<le> CHR ''Z'')
        then getScheme_loop (Suc i) rawURL cs
      else if (CHR ''0'' \<le> c \<and> c \<le> CHR ''9'') \<or> c = CHR ''+'' \<or> c = CHR ''-'' \<or> c = CHR ''.''
        then (if i = 0 then Some ('''', rawURL) else getScheme_loop (Suc i) rawURL cs)
      else if c = CHR '':''
        then (if i = 0 then None else Some (take i rawURL, drop (Suc i) rawURL))
      else Some ('''', rawURL))"

definition getScheme :: "string \<Rightarrow> (string \<times> string) option" where
  "getScheme rawURL = getScheme_loop 0 rawURL rawURL"

definition validOptionalPort :: "string \<Rightarrow> bool" where
  "validOptionalPort port =
     (case port of
        [] \<Rightarrow> True
      | c # ds \<Rightarrow> c = CHR '':'' \<and> list_all (\<lambda>b. \<not> (b < CHR ''0'' \<or> CHR ''9'' < b)) ds)"

definition validUserinfo :: "string \<Rightarrow> bool" where
  "validUserinfo s =
     list_all (\<lambda>r. is_alnum r \<or> r \<in> set (''-._:~!$&'' @ [CHR 0x27] @ ''()*+,;=%@'')) s"

definition parseHost :: "string \<Rightarrow> string option" where
  "parseHost host =
     (if strings_HasPrefix host ''[''
      then (case strings_LastIndex host CHR '']'' of
              None \<Rightarrow> None
            | Some i \<Rightarrow>
                (if \<not> validOptionalPort (drop (i + 1) host) then None
                 else (case strings_IndexS (take i host) ''%25'' of
                         Some zone \<Rightarrow>
                           (case unescape (take zone host) encodeHost of
                              None \<Rightarrow> None
                            | Some host1 \<Rightarrow>
                               (case unescape (take (i - zone) (drop zone host)) encodeZone of
                                  None \<Rightarrow> None
                                | Some host2 \<Rightarrow>
                                   (case unescape (drop i host) encodeHost of
                                      None \<Rightarrow> None
                                    | Some host3 \<Rightarrow> Some (host1 @ host2 @ host3))))
                       | None \<Rightarrow> unescape host encodeHost)))
      else (case strings_LastIndex host CHR '':'' of
              Some i \<Rightarrow> (if \<not> validOptionalPort (drop i host) then None else unescape host encodeHost)
            | None \<Rightarrow> unescape host encodeHost))"

definition parseAuthority :: "string \<Rightarrow> ((string \<times> string option) option \<times> string) option" where
  "parseAuthority authority =
     (case strings_LastIndex authority CHR ''@'' of
        None \<Rightarrow>
          (case parseHost authority of None \<Rightarrow> None | Some host \<Rightarrow> Some (None, host))
      | Some i \<Rightarrow>
          (case parseHost (drop (i + 1) authority) of
             None \<Rightarrow> None
           | Some host \<Rightarrow>
               (let userinfo = take i authority
                in if \<not> validUserinfo userinfo then None
                   else if \<not> strings_Contains userinfo '':''
                   then (case unescape userinfo encodeUserPassword of
                           None \<Rightarrow> None
                         | Some userinfo \<Rightarrow> Some (Some (userinfo, None), host))
                   else (case strings_Cut userinfo CHR '':'' of
                           (username, password, _) \<Rightarrow>
                             (case unescape username encodeUserPassword of
                                None \<Rightarrow> None
                              | Some username \<Rightarrow>
                                 (case unescape password encodeUserPassword of
                                    None \<Rightarrow> None
                                  | Some password \<Rightarrow>
                                      Some (Some (username, Some password), host)))))))"

text \<open>\<open>setPath\<close>: the path is the unescaped text (\<open>RawPath\<close> is not read by the source).\<close>

definition setPath :: "url_URL \<Rightarrow> string \<Rightarrow> url_URL option" where
  "setPath url p =
     (case unescape p encodePath of None \<Rightarrow> None | Some path \<Rightarrow> Some (url\<lparr>u_Path := path\<rparr>))"

text \<open>The unexported \<open>parse(rawURL, viaRequest)\<close> for \<open>viaRequest = false\<close>.\<close>

definition parse_authority_path :: "url_URL \<Rightarrow> string \<Rightarrow> url_URL option" where
  "parse_authority_path url rest =
     (if (u_Scheme url \<noteq> '''' \<or> \<not> strings_HasPrefix rest ''///'') \<and> strings_HasPrefix rest ''//''
      then (let authority = drop 2 rest;
                (authority, rest) =
                  (case strings_Index authority CHR ''/'' of
                     None \<Rightarrow> (authority, '''')
                   | Some i \<Rightarrow> (take i authority, drop i authority))
            in case parseAuthority authority of
                 None \<Rightarrow> None
               | Some (user, host) \<Rightarrow> setPath (url\<lparr>u_User := user, u_Host := host\<rparr>) rest)
      else setPath url rest)"

definition url_parse :: "string \<Rightarrow> url_URL option" where
  "url_parse rawURL =
     (if stringContainsCTLByte rawURL then None
      else if rawURL = ''*'' then Some (url_URL_zero\<lparr>u_Path := ''*''\<rparr>)
      else
        (case getScheme rawURL of
           None \<Rightarrow> None
         | Some (scheme, rest) \<Rightarrow>
             (let url = url_URL_zero\<lparr>u_Scheme := strings_ToLower scheme\<rparr>;
                  (rest, url) =
                    (if strings_HasSuffix rest ''?'' \<and> count_list rest CHR ''?'' = 1
                     then (butlast rest, url\<lparr>u_ForceQuery := True\<rparr>)
                     else (case strings_Cut rest CHR ''?'' of
                             (before, after, _) \<Rightarrow> (before, url\<lparr>u_RawQuery := after\<rparr>)))
              in if \<not> strings_HasPrefix rest ''/''
                 then (if u_Scheme url \<noteq> '''' then Some (url\<lparr>u_Opaque := rest\<rparr>)
                       else if strings_Contains (fst (strings_Cut rest CHR ''/'')) '':'' then None
                       else parse_authority_path url rest)
                 else parse_authority_path url rest)))"

text \<open>\<open>url.Parse\<close>: the fragment is cut off first and unescaped last.\<close>

definition url_Parse :: "string \<Rightarrow> url_URL option" where
  "url_Parse rawURL =
     (case strings_Cut rawURL CHR ''#'' of
        (u, frag, _) \<Rightarrow>
          (case url_parse u of
             None \<Rightarrow> None
           | Some url \<Rightarrow>
               (if frag = '''' then Some url
                else (case unescape frag encodeFragment of
                        None \<Rightarrow> None
                      | Some f \<Rightarrow> Some (url\<lparr>u_Fragment := f\<rparr>)))))"

subsection \<open>\<open>url.ParseQuery\<close> and \<open>url.Values.Encode\<close>\<close>

text \<open>
  \<open>ParseQuery\<close> cuts the query at every \<open>&\<close>, so that its loop runs over the pieces of
  \<open>strings.Split(query, "&")\<close>; it returns the map built from the pieces it accepts, and
  whether there was an error.
\<close>

definition parseQuery_step :: "Values \<times> bool \<Rightarrow> string \<Rightarrow> Values \<times> bool" where
  "parseQuery_step st key =
     (case st of (m, err) \<Rightarrow>
        (if strings_Contains key '';'' then (m, True)
         else if key = '''' then (m, err)
         else (case strings_Cut key CHR ''='' of
                 (key, val, _) \<Rightarrow>
                   (case QueryUnescape key of
                      None \<Rightarrow> (m, True)
                    | Some key \<Rightarrow>
                       (case QueryUnescape val of
                          None \<Rightarrow> (m, True)
                        | Some val \<Rightarrow> (Values_Add m key val, err))))))"

definition ParseQuery :: "string \<Rightarrow> Values \<times> bool" where
  "ParseQuery query = foldl parseQuery_step ([], False) (strings_Split query CHR ''&'')"

text \<open>\<open>Encode\<close>: the keys sorted, \<open>key=value\<close> for every value, joined by \<open>&\<close>.\<close>

definition Encode_value :: "string \<Rightarrow> string \<Rightarrow> string \<Rightarrow> string" where
  "Encode_value keyEscaped buf v =
     (let buf = (if length buf > 0 then buf @ ''&'' else buf)
      in buf @ keyEscaped @ ''='' @ QueryEscape v)"

definition Values_Encode :: "Values \<Rightarrow> string" where
  "Values_Encode v =
     (if length v = 0 then ''''
      else foldl (\<lambda>buf k. foldl (Encode_value (QueryEscape k)) buf
                            (case map_of v k of None \<Rightarrow> [] | Some vs \<Rightarrow> vs))
             '''' (sort (map fst v)))"

subsection \<open>\<open>net.SplitHostPort\<close>\<close>

definition SplitHostPort :: "string \<Rightarrow> (string \<times> string) option" where
  "SplitHostPort hostport =
     (case strings_LastIndex hostport CHR '':'' of
        None \<Rightarrow> None
      | Some i \<Rightarrow>
          (case (if strings_HasPrefix hostport ''[''
                 then (case strings_Index hostport CHR '']'' of
                         None \<Rightarrow> None
                       | Some e \<Rightarrow>
                           (if e + 1 = length hostport then None
                            else if e + 1 = i then Some (take (e - 1) (drop 1 hostport), 1, e + 1)
                            else None))
                 else (let host = take i hostport
                       in if CHR '':'' \<in> set host then None else Some (host, 0, 0))) of
             None \<Rightarrow> None
           | Some (host, j, k) \<Rightarrow>
               (if CHR ''['' \<in> set (drop j hostport) then None
                else if CHR '']'' \<in> set (drop k hostport) then None
                else Some (host, drop (i + 1) hostport))))"

subsection \<open>\<open>strconv.Itoa\<close> and \<open>strconv.FormatBool\<close>\<close>

function FormatUint :: "nat \<Rightarrow> string" where
  "FormatUint n =
     (if n < 10 then [''0123456789'' ! n]
      else FormatUint (n div 10) @ [''0123456789'' ! (n mod 10)])"
  by pat_completeness auto
termination
  by (relation "measure id") auto

declare FormatUint.simps [simp del]

definition Itoa :: "int \<Rightarrow> string" where
  "Itoa i = (if i < 0 then ''-'' @ FormatUint (nat (- i)) else FormatUint (nat i))"


section \<open>The URL\<close>

text \<open>
  The struct \<open>URL\<close>. The locks and the \<open>noCopy\<close> marker carry no data. An attribute
  value has the Go type \<open>any\<close>; it is opaque here. \<open>SubURL\<close> is a pointer to another URL.
\<close>

typedecl any

datatype URL = URL
  (Protocol: string)
  (Location: string)
  (Ip: string)
  (Port: string)
  (PrimitiveURL: string)
  (params: Values)
  (Path: string)
  (Username: string)
  (Password: string)
  (Methods: "string list")
  (attributes: "(string \<times> any) list")
  (SubURL: "URL option")

text \<open>The zero value \<open>URL{}\<close>.\<close>

definition URL_zero :: URL where
  "URL_zero = URL [] [] [] [] [] [] [] [] [] [] [] None"

text \<open>Assignments to one field.\<close>

definition set_params :: "Values \<Rightarrow> URL \<Rightarrow> URL" where
  "set_params v u = URL (Protocol u) (Location u) (Ip u) (Port u) (PrimitiveURL u) v (Path u)
     (Username u) (Password u) (Methods u) (attributes u) (SubURL u)"

definition set_Methods :: "string list \<Rightarrow> URL \<Rightarrow> URL" where
  "set_Methods ms u = URL (Protocol u) (Location u) (Ip u) (Port u) (PrimitiveURL u) (params u)
     (Path u) (Username u) (Password u) ms (attributes u) (SubURL u)"

definition set_attributes :: "(string \<times> any) list \<Rightarrow> URL \<Rightarrow> URL" where
  "set_attributes as u = URL (Protocol u) (Location u) (Ip u) (Port u) (PrimitiveURL u) (params u)
     (Path u) (Username u) (Password u) (Methods u) as (SubURL u)"

definition set_Path :: "string \<Rightarrow> URL \<Rightarrow> URL" where
  "set_Path p u = URL (Protocol u) (Location u) (Ip u) (Port u) (PrimitiveURL u) (params u)
     p (Username u) (Password u) (Methods u) (attributes u) (SubURL u)"

definition set_SubURL :: "URL option \<Rightarrow> URL \<Rightarrow> URL" where
  "set_SubURL s u = URL (Protocol u) (Location u) (Ip u) (Port u) (PrimitiveURL u) (params u)
     (Path u) (Username u) (Password u) (Methods u) (attributes u) s"

definition set_Protocol :: "string \<Rightarrow> URL \<Rightarrow> URL" where
  "set_Protocol p u = URL p (Location u) (Ip u) (Port u) (PrimitiveURL u) (params u)
     (Path u) (Username u) (Password u) (Methods u) (attributes u) (SubURL u)"

definition set_Location :: "string \<Rightarrow> URL \<Rightarrow> URL" where
  "set_Location l u = URL (Protocol u) l (Ip u) (Port u) (PrimitiveURL u) (params u)
     (Path u) (Username u) (Password u) (Methods u) (attributes u) (SubURL u)"

definition set_PrimitiveURL :: "string \<Rightarrow> URL \<Rightarrow> URL" where
  "set_PrimitiveURL p u = URL (Protocol u) (Location u) (Ip u) (Port u) p (params u)
     (Path u) (Username u) (Password u) (Methods u) (attributes u) (SubURL u)"

definition set_Ip_Port :: "string \<Rightarrow> string \<Rightarrow> URL \<Rightarrow> URL" where
  "set_Ip_Port i p u = URL (Protocol u) (Location u) i p (PrimitiveURL u) (params u)
     (Path u) (Username u) (Password u) (Methods u) (attributes u) (SubURL u)"

definition set_User :: "string \<Rightarrow> string \<Rightarrow> URL \<Rightarrow> URL" where
  "set_User n p u = URL (Protocol u) (Location u) (Ip u) (Port u) (PrimitiveURL u) (params u)
     (Path u) n p (Methods u) (attributes u) (SubURL u)"

subsection \<open>Parameters\<close>

text \<open>\<open>SetParam\<close>, \<open>AddParam\<close>, \<open>DelParam\<close>, \<open>ReplaceParams\<close>, \<open>GetParams\<close>.\<close>

definition SetParam :: "URL \<Rightarrow> string \<Rightarrow> string \<Rightarrow> URL" where
  "SetParam c key val = set_params (Values_Set (params c) key val) c"


definition DelParam :: "URL \<Rightarrow> string \<Rightarrow> URL" where
  "DelParam c key = set_params (Values_Del (params c) key) c"

definition ReplaceParams :: "URL \<Rightarrow> Values \<Rightarrow> URL" where
  "ReplaceParams c param = set_params param c"

definition GetParams :: "URL \<Rightarrow> Values" where
  "GetParams c = params c"

text \<open>
  \<open>GetParam(s, d)\<close>: the value of \<open>s\<close>, or \<open>d\<close> when the value is empty.
  \<open>GetNonDefaultParam(s)\<close>: the value and whether it is non-empty.
\<close>

definition GetParam :: "URL \<Rightarrow> string \<Rightarrow> string \<Rightarrow> string" where
  "GetParam c s d =
     (let r = (if length (params c) > 0 then Values_Get (params c) s else '''');
          r = (if length r = 0 then d else r)
      in r)"

definition GetNonDefaultParam :: "URL \<Rightarrow> string \<Rightarrow> string \<times> bool" where
  "GetNonDefaultParam c s =
     (let r = (if length (params c) > 0 then Values_Get (params c) s else '''')
      in (r, r \<noteq> ''''))"

text \<open>
  \<open>RangeParams(f)\<close> calls \<open>f(k, v[0])\<close> on every entry until \<open>f\<close> returns false. The
  callback updates the variables it captures: here it maps a state to a new state.
  \<open>v[0]\<close> panics on an empty slice.
\<close>

fun RangeParams :: "Values \<Rightarrow> (string \<Rightarrow> string \<Rightarrow> 's \<Rightarrow> bool \<times> 's) \<Rightarrow> 's \<Rightarrow> panic + 's" where
  "RangeParams [] f s = Inr s"
| "RangeParams ((k, v) # ps) f s =
     (case v of
        [] \<Rightarrow> Inl IndexOutOfRange
      | v0 # _ \<Rightarrow>
          (case f k v0 s of
             (True, s') \<Rightarrow> RangeParams ps f s'
           | (False, s') \<Rightarrow> Inr s'))"

text \<open>\<open>SetAttribute\<close>, \<open>GetAttribute\<close>, \<open>RangeAttributes\<close>.\<close>

definition SetAttribute :: "URL \<Rightarrow> string \<Rightarrow> any \<Rightarrow> URL" where
  "SetAttribute c key val = set_attributes (AList.update key val (attributes c)) c"

definition GetAttribute :: "URL \<Rightarrow> string \<Rightarrow> any option" where
  "GetAttribute c key = map_of (attributes c) key"

fun RangeAttributes :: "(string \<times> any) list \<Rightarrow> (string \<Rightarrow> any \<Rightarrow> 's \<Rightarrow> bool \<times> 's) \<Rightarrow> 's \<Rightarrow> 's" where
  "RangeAttributes [] f s = s"
| "RangeAttributes ((k, v) # as) f s =
     (case f k v s of
        (True, s') \<Rightarrow> RangeAttributes as f s'
      | (False, s') \<Rightarrow> s')"

subsection \<open>Construction, parsing and formatting\<close>

text \<open>An \<open>Option\<close> is a function that updates the URL it is given.\<close>

type_synonym Option = "URL \<Rightarrow> URL"







text \<open>
  The errors of \<open>NewURL\<close>, one for each of its four error returns. \<open>NewURL\<close> returns the URL
  it has filled so far together with the error.
\<close>

datatype url_error = QueryUnescapeError | ParseError | ParseQueryError | SplitHostPortError

text \<open>
  The loop over the comma-separated locations: the first location with a colon decides
  \<open>Ip\<close> and \<open>Port\<close>; when \<open>SplitHostPort\<close> rejects it, both are assigned the empty string.
\<close>

fun split_locations :: "string list \<Rightarrow> URL \<Rightarrow> URL \<times> url_error option" where
  "split_locations [] s = (s, None)"
| "split_locations (location # locations) s =
     (let location = strings_Trim_space location
      in if strings_Contains location '':''
         then (case SplitHostPort location of
                 None \<Rightarrow> (set_Ip_Port '''' '''' s, Some SplitHostPortError)
               | Some (ip, port) \<Rightarrow> (set_Ip_Port ip port s, None))
         else split_locations locations s)"

definition NewURL :: "string \<Rightarrow> Option list \<Rightarrow> URL \<times> url_error option" where
  "NewURL urlString opts =
     (let s = URL_zero
      in if urlString = '''' then (s, None)
         else
          (case QueryUnescape urlString of
             None \<Rightarrow> (s, Some QueryUnescapeError)
           | Some rawURLString \<Rightarrow>
              (let rawURLString =
                     (if \<not> strings_Contains rawURLString ''//''
                      then (let t = foldl (\<lambda>t opt. opt t) URL_zero opts
                            in Protocol t @ ''://'' @ rawURLString)
                      else rawURLString)
               in case url_Parse rawURLString of
                    None \<Rightarrow> (s, Some ParseError)
                  | Some serviceURL \<Rightarrow>
                     (case ParseQuery (u_RawQuery serviceURL) of
                        (ps, err) \<Rightarrow>
                          (let s = set_params ps s
                           in if err then (s, Some ParseQueryError)
                              else
                               (let s = set_PrimitiveURL urlString s;
                                    s = set_Protocol (u_Scheme serviceURL) s;
                                    s = set_User (Userinfo_Username (u_User serviceURL))
                                          (Userinfo_Password (u_User serviceURL)) s;
                                    s = set_Location (u_Host serviceURL) s;
                                    s = set_Path (u_Path serviceURL) s
                                in case split_locations (strings_Split (Location s) CHR '','') s of
                                     (s, Some e) \<Rightarrow> (s, Some e)
                                   | (s, None) \<Rightarrow>
                                       (let s = foldl (\<lambda>s opt. opt s) s opts;
                                            s = (if Values_Get (params s) RegistryGroupKey \<noteq> ''''
                                                 then set_PrimitiveURL
                                                        (strings_Join2 (PrimitiveURL s)
                                                           (Values_Get (params s) RegistryGroupKey)
                                                           PathSeparator) s
                                                 else s)
                                        in (s, None))))))))"

text \<open>\<open>URL.String\<close>, the method \<open>String\<close> of a URL.\<close>

definition URL_String :: "URL \<Rightarrow> string" where
  "URL_String c =
     (let buf = (if length (Username c) = 0 \<and> length (Password c) = 0
                 then Protocol c @ ''://'' @ Ip c @ '':'' @ Port c @ Path c @ ''?''
                 else Protocol c @ ''://'' @ Username c @ '':'' @ Password c @ ''@'' @ Ip c @ '':''
                        @ Port c @ Path c @ ''?'')
      in buf @ Values_Encode (params c))"

subsection \<open>Service key\<close>

text \<open>
  \<open>ServiceKey(intf, group, version)\<close>. The \<open>bytes.Buffer\<close> is the string written so far.
\<close>

definition ServiceKey :: "string \<Rightarrow> string \<Rightarrow> string \<Rightarrow> string" where
  "ServiceKey intf grp version =
     (if intf = '''' then ''''
      else
        (let buf = '''';
             buf = (if grp \<noteq> '''' then (buf @ grp) @ ''/'' else buf);
             buf = buf @ intf;
             buf = (if version \<noteq> '''' \<and> version \<noteq> ''0.0.0'' then (buf @ '':'') @ version else buf)
         in buf))"

text \<open>The method \<open>URL.ServiceKey\<close>: the interface defaults to the path without its slash.\<close>

definition URL_ServiceKey :: "URL \<Rightarrow> string" where
  "URL_ServiceKey c =
     ServiceKey (GetParam c InterfaceKey (strings_TrimPrefix (Path c) PathSeparator))
       (GetParam c GroupKey '''') (GetParam c VersionKey '''')"

subsection \<open>Clone and merge\<close>

text \<open>
  \<open>copier.Copy(newURL, c)\<close> is a library call that fills the exported fields of a fresh
  URL from \<open>c\<close>; \<open>params\<close> and \<open>attributes\<close> are not exported and stay empty.
\<close>

definition copier_Copy :: "URL \<Rightarrow> URL" where
  "copier_Copy c = URL (Protocol c) (Location c) (Ip c) (Port c) (PrimitiveURL c) [] (Path c)
     (Username c) (Password c) (Methods c) [] (SubURL c)"

definition Clone :: "URL \<Rightarrow> panic + URL" where
  "Clone c =
     (let newURL = copier_Copy c;
          newURL = set_params [] newURL
      in case RangeParams (params c) (\<lambda>key val u. (True, SetParam u key val)) newURL of
           Inl p \<Rightarrow> Inl p
         | Inr newURL \<Rightarrow>
             Inr (RangeAttributes (attributes c) (\<lambda>key val u. (True, SetAttribute u key val)) newURL))"

text \<open>
  \<open>MergeURL\<close>. The local \<open>params\<close> is the map of the clone itself (\<open>GetParams\<close> returns
  the map, not a copy), so every write \<open>params[key] = ...\<close> is a write to \<open>mergedURL\<close>, and
  the reads of \<open>mergedURL\<close> inside the first loop see it. The model threads \<open>mergedURL\<close>;
  the closing \<open>ReplaceParams(params)\<close> stores the map it already has.
\<close>

definition params_store :: "string \<Rightarrow> string list \<Rightarrow> URL \<Rightarrow> URL" where
  "params_store key vals u = set_params (AList.update key vals (params u)) u"

text \<open>The body of the first loop: a key of \<open>anotherUrl\<close> that \<open>mergedURL\<close> lacks is copied.\<close>

definition merge_missing :: "URL \<Rightarrow> string \<times> string list \<Rightarrow> URL" where
  "merge_missing mergedURL kv =
     (case kv of (key, val) \<Rightarrow>
        (if \<not> snd (GetNonDefaultParam mergedURL key)
         then (if length val > 0 then params_store key val mergedURL else mergedURL)
         else mergedURL))"

text \<open>The body of the inner loop over the four keys, for one method.\<close>

definition merge_method_key :: "URL \<Rightarrow> string \<Rightarrow> URL \<Rightarrow> string \<Rightarrow> URL" where
  "merge_method_key anotherUrl method mergedURL paramKey =
     (let v = GetParam anotherUrl paramKey '''';
          mergedURL = (if length v > 0 then params_store paramKey [v] mergedURL else mergedURL);
          methodsKey = ''methods.'' @ method @ ''.'' @ paramKey;
          v = GetParam anotherUrl methodsKey '''';
          mergedURL = (if length v > 0 then params_store methodsKey [v] mergedURL else mergedURL)
      in mergedURL)"

text \<open>
  The loop over \<open>anotherUrl.Methods\<close>. \<open>mergedURL.Methods[i] = method\<close> fills the slice
  allocated before the loop, which ends as a copy of \<open>anotherUrl.Methods\<close>.
\<close>

definition merge_methods :: "URL \<Rightarrow> URL \<Rightarrow> URL" where
  "merge_methods anotherUrl mergedURL =
     foldl (\<lambda>u method.
              foldl (merge_method_key anotherUrl method) u
                [LoadbalanceKey, ClusterKey, RetriesKey, TimeoutKey])
       (set_Methods (Methods anotherUrl) mergedURL) (Methods anotherUrl)"

definition merge_attributes :: "URL \<Rightarrow> URL \<Rightarrow> URL" where
  "merge_attributes anotherUrl mergedURL =
     foldl (\<lambda>u (attrK, attrV).
              (case GetAttribute u attrK of
                 None \<Rightarrow> set_attributes (AList.update attrK attrV (attributes u)) u
               | Some _ \<Rightarrow> u))
       mergedURL (attributes anotherUrl)"

definition MergeURL :: "URL \<Rightarrow> URL \<Rightarrow> panic + URL" where
  "MergeURL c anotherUrl =
     (case Clone c of
        Inl p \<Rightarrow> Inl p
      | Inr mergedURL \<Rightarrow>
          (let mergedURL = foldl merge_missing mergedURL (GetParams anotherUrl);
               mergedURL =
                 (case GetNonDefaultParam c TimestampKey of
                    (v, ok) \<Rightarrow>
                      (if \<not> ok
                       then params_store TimestampKey [GetParam anotherUrl TimestampKey '''']
                              (params_store RemoteTimestampKey [v] mergedURL)
                       else mergedURL));
               mergedURL = merge_methods anotherUrl mergedURL;
               mergedURL = merge_attributes anotherUrl mergedURL
           in Inr (ReplaceParams mergedURL (params mergedURL))))"

subsection \<open>Conversion to a map and equality\<close>

text \<open>\<open>ToMap\<close>: a \<open>map[string]string\<close>, nil (the empty list) when nothing was stored.\<close>

definition ToMap :: "URL \<Rightarrow> panic + (string \<times> string) list" where
  "ToMap c =
     (case RangeParams (params c) (\<lambda>key val m. (True, AList.update key val m)) [] of
        Inl p \<Rightarrow> Inl p
      | Inr paramsMap \<Rightarrow>
          (let paramsMap = (if Protocol c \<noteq> '''' then AList.update PROTOCOL (Protocol c) paramsMap
                            else paramsMap);
               paramsMap = (if Username c \<noteq> '''' then AList.update ''username'' (Username c) paramsMap
                            else paramsMap);
               paramsMap = (if Password c \<noteq> '''' then AList.update ''password'' (Password c) paramsMap
                            else paramsMap);
               paramsMap =
                 (if Location c \<noteq> ''''
                  then (let paramsMap =
                              AList.update ''host'' (hd (strings_Split (Location c) CHR '':'')) paramsMap;
                            port = (if strings_Contains (Location c) '':''
                                    then strings_Split (Location c) CHR '':'' ! 1
                                    else ''0'')
                        in AList.update ''port'' port paramsMap)
                  else paramsMap);
               paramsMap = (if Protocol c \<noteq> '''' then AList.update PROTOCOL (Protocol c) paramsMap
                            else paramsMap);
               paramsMap = (if Path c \<noteq> '''' then AList.update ''path'' (Path c) paramsMap
                            else paramsMap)
           in Inr (if length paramsMap = 0 then [] else paramsMap)))"

text \<open>
  \<open>IsEquals(left, right, excludes...)\<close>. Both arguments are pointers; the first test
  returns when exactly one of them is nil, and \<open>left.Ip\<close> is read next.
\<close>

definition IsEquals :: "URL option \<Rightarrow> URL option \<Rightarrow> string list \<Rightarrow> panic + bool" where
  "IsEquals left right excludes =
     (if (left = None \<and> right \<noteq> None) \<or> (right = None \<and> left \<noteq> None) then Inr False
      else
        (case left of
           None \<Rightarrow> Inl NilPointerDereference
         | Some l \<Rightarrow>
            (case right of
               None \<Rightarrow> Inl NilPointerDereference
             | Some r \<Rightarrow>
                 (if Ip l \<noteq> Ip r \<or> Port l \<noteq> Port r then Inr False
                  else
                    (case ToMap l of
                       Inl p \<Rightarrow> Inl p
                     | Inr leftMap \<Rightarrow>
                        (case ToMap r of
                           Inl p \<Rightarrow> Inl p
                         | Inr rightMap \<Rightarrow>
                            (let leftMap = foldl (\<lambda>m exclude. AList.delete exclude m) leftMap excludes;
                                 rightMap = foldl (\<lambda>m exclude. AList.delete exclude m) rightMap excludes
                             in if length leftMap \<noteq> length rightMap then Inr False
                                else Inr (list_all
                                       (\<lambda>(lk, lv). case map_of rightMap lk of
                                                       None \<Rightarrow> False
                                                     | Some rv \<Rightarrow> lv = rv)
                                       leftMap))))))))"

chapter \<open>Service instances and the nacos service discovery\<close>

section \<open>Machine integers and floating point\<close>

text \<open>
  \<open>int64\<close>, \<open>uint64\<close> and (on the 64-bit platforms) \<open>int\<close> are 64-bit words; the signed
  comparisons are \<open>\<le>s\<close> and \<open><s\<close>. A conversion between two of these types keeps the
  bits. \<open>float64\<close> is the type parameter \<open>'f\<close>: the source only converts to and from it,
  with the functions collected in \<open>float64_ops\<close>.
\<close>

type_synonym int64 = "64 word"

record 'f float64_ops =
  round_to_int64 :: "'f \<Rightarrow> int64"   \<comment> \<open>\<open>int64(math.Round(x))\<close>\<close>
  trunc_to_int64 :: "'f \<Rightarrow> int64"   \<comment> \<open>\<open>int64(x)\<close>\<close>
  of_int64 :: "int64 \<Rightarrow> 'f"          \<comment> \<open>\<open>float64(w)\<close>\<close>
  ParseFloat :: "string \<Rightarrow> 'f option"  \<comment> \<open>\<open>strconv.ParseFloat(s, 64)\<close>, \<open>None\<close> for an error\<close>

section \<open>\<open>DefaultServiceInstance\<close>\<close>

typedecl MetadataInfo

record Endpoint =
  ep_Port :: int64
  ep_Protocol :: string

text \<open>The fields of \<open>DefaultServiceInstance\<close>, prefixed with the receiver's name \<open>d\<close>.\<close>

record DefaultServiceInstance =
  d_ID :: string
  d_ServiceName :: string
  d_Host :: string
  d_Port :: int64
  d_Weight :: int64
  d_Enable :: bool
  d_Healthy :: bool
  d_Metadata :: "(string \<times> string) list"
  d_ServiceMetadata :: "MetadataInfo option"
  d_Address :: string
  d_GroupName :: string
  d_endpoints :: "Endpoint list"
  d_Tag :: string

text \<open>
  The zero value of the struct, which a composite literal completes with the fields it
  names.
\<close>

definition DefaultServiceInstance_zero :: DefaultServiceInstance where
  "DefaultServiceInstance_zero =
     \<lparr>d_ID = '''', d_ServiceName = '''', d_Host = '''', d_Port = 0, d_Weight = 0,
      d_Enable = False, d_Healthy = False, d_Metadata = [], d_ServiceMetadata = None,
      d_Address = '''', d_GroupName = '''', d_endpoints = [], d_Tag = ''''\<rparr>"






definition IsHealthy :: "DefaultServiceInstance \<Rightarrow> bool" where
  "IsHealthy d = d_Healthy d"



section \<open>The naming client\<close>

text \<open>
  \<open>model.Instance\<close> and \<open>vo.RegisterInstanceParam\<close> of the nacos client library, with the
  fields the source reads and writes. The naming client is the function that answers
  \<open>SelectAllInstances\<close> for a service name and a group: \<open>None\<close> is an error. A call does
  not change what the next call returns.
\<close>

record 'f Instance =
  ins_Ip :: string
  ins_Port :: int64
  ins_Weight :: 'f
  ins_Enable :: bool
  ins_Healthy :: bool
  ins_Metadata :: "(string \<times> string) list"


record 'f nacosServiceDiscovery =
  n_group :: string
  n_descriptor :: string
  n_SelectAllInstances :: "string \<Rightarrow> string \<Rightarrow> 'f Instance list option"
  n_registryInstances :: "DefaultServiceInstance list"
  n_serviceNameInstancesMap :: "(string \<times> DefaultServiceInstance list) list"
  n_registryURL :: URL

definition idKey :: string where "idKey = ''id''"


section \<open>Enumerating instances\<close>

text \<open>
  The body of the loop of \<open>GetInstances\<close>: one record of the naming service becomes one
  instance. A key that the metadata lacks reads as the empty string.
\<close>

definition metadata_get :: "(string \<times> string) list \<Rightarrow> string \<Rightarrow> string" where
  "metadata_get m k = (case map_of m k of None \<Rightarrow> '''' | Some v \<Rightarrow> v)"

definition GetInstances_translate ::
  "'f float64_ops \<Rightarrow> 'f nacosServiceDiscovery \<Rightarrow> string \<Rightarrow> 'f Instance \<Rightarrow> DefaultServiceInstance" where
  "GetInstances_translate fl n serviceName ins =
     (let metadata = ins_Metadata ins;
          id = metadata_get metadata idKey;
          metadata = AList.delete idKey metadata
      in DefaultServiceInstance_zero
           \<lparr>d_ID := id,
            d_ServiceName := serviceName,
            d_Host := ins_Ip ins,
            d_Port := ins_Port ins,
            d_Weight := round_to_int64 fl (ins_Weight ins),
            d_Enable := ins_Enable ins,
            d_Healthy := ins_Healthy ins,
            d_Metadata := metadata,
            d_GroupName := n_group n\<rparr>)"

definition GetInstances ::
  "'f float64_ops \<Rightarrow> 'f nacosServiceDiscovery \<Rightarrow> string \<Rightarrow> DefaultServiceInstance list" where
  "GetInstances fl n serviceName =
     (case n_SelectAllInstances n serviceName (n_group n) of
        None \<Rightarrow> []
      | Some instances \<Rightarrow>
          foldl (\<lambda>res ins. res @ [GetInstances_translate fl n serviceName ins]) [] instances)"

text \<open>
  \<open>make([]any, 0, pageSize)\<close>, the first statement of both paging functions, is the call
  \<open>makeslice(et, 0, pageSize)\<close> of the Go runtime. It panics with
  \<open>makeslice: cap out of range\<close> when the capacity is negative or the size of the block,
  the capacity times the size of an element, exceeds \<open>maxAlloc\<close>; otherwise it asks the
  allocator for the block, and the program ends with the fatal error
  \<open>runtime: out of memory\<close> when the operating system does not grant it. Both limits
  depend on the platform and the machine, so they are the fields of \<open>go_runtime\<close>:
  \<open>rt_maxAlloc\<close> is \<open>maxAlloc\<close> (\<open>2^48\<close> on linux/amd64, and below \<open>2^64\<close> everywhere, so
  that the overflow test of \<open>makeslice\<close> is subsumed by the comparison on the integers),
  \<open>rt_memory\<close> is the size in bytes of the largest block that the allocator obtains.
  A value of the type \<open>any\<close> takes two words, 16 bytes. The other allocations of the
  source have the size of data that is in memory already and are taken to succeed.
\<close>

record go_runtime =
  rt_maxAlloc :: int
  rt_memory :: int

definition any_size :: int where
  "any_size = 16"

definition makeslice :: "go_runtime \<Rightarrow> int \<Rightarrow> int \<Rightarrow> panic + 'a list" where
  "makeslice rt elemsize cap =
     (if cap < 0 \<or> rt_maxAlloc rt < elemsize * cap then Inl MakeSliceCapOutOfRange
      else if rt_memory rt < elemsize * cap then Inl OutOfMemory
      else Inr [])"

text \<open>
  Values of the Go type \<open>int\<close> are integers in the 64-bit range here; an arithmetic
  result wraps around, the quotient is truncated towards zero and the remainder has the
  sign of the dividend.
\<close>

definition int_wrap :: "int \<Rightarrow> int" where
  "int_wrap x = sint (word_of_int x :: 64 word)"

definition go_quo :: "int \<Rightarrow> int \<Rightarrow> int" where
  "go_quo a b = int_wrap (sgn a * sgn b * (abs a div abs b))"

definition go_rem :: "int \<Rightarrow> int \<Rightarrow> int" where
  "go_rem a b = sgn a * (abs a mod abs b)"

text \<open>
  \<open>gxpage.NewPage(requestOffset, pageSize, data, totalSize)\<close> of the paging library
  (\<open>github.com/dubbogo/gost/hash/page\<close>, outside the sources at hand): it keeps its four
  arguments and computes the number of pages, with \<open>totalSize % pageSize\<close> and
  \<open>totalSize / pageSize\<close>, which panic for the page size \<open>0\<close>, and whether a next page
  exists.
\<close>

record 'a Page =
  pg_Offset :: int
  pg_PageSize :: int
  pg_Data :: "'a list"
  pg_TotalSize :: int
  pg_TotalPages :: int
  pg_HasNext :: bool

definition NewPage :: "int \<Rightarrow> int \<Rightarrow> 'a list \<Rightarrow> int \<Rightarrow> panic + 'a Page" where
  "NewPage requestOffset pageSize data totalSize =
     (if pageSize = 0 then Inl IntegerDivideByZero
      else
        (let remain = go_rem totalSize pageSize;
             totalPages = go_quo totalSize pageSize;
             totalPages = (if 0 < remain then int_wrap (totalPages + 1) else totalPages);
             hasNext = (0 < int_wrap (int_wrap (totalSize - requestOffset) - pageSize))
         in Inr \<lparr>pg_Offset = requestOffset, pg_PageSize = pageSize, pg_Data = data,
                 pg_TotalSize = totalSize, pg_TotalPages = totalPages, pg_HasNext = hasNext\<rparr>))"

text \<open>
  The loop of \<open>GetInstancesByPage\<close>: \<open>for i := offset; i < len(all) && i < offset+pageSize; i++\<close>.
  \<open>all[i]\<close> panics for a negative \<open>i\<close>.
\<close>

function page_loop :: "'a list \<Rightarrow> int \<Rightarrow> int \<Rightarrow> 'a list \<Rightarrow> panic + 'a list" where
  "page_loop all i bound res =
     (if i < int (length all) \<and> i < bound
      then (if i < 0 then Inl IndexOutOfRange
            else page_loop all (i + 1) bound (res @ [all ! nat i]))
      else Inr res)"
  by pat_completeness auto
termination
  by (relation "measure (\<lambda>(all, i, bound, res). nat (int (length all) - i))") auto

declare page_loop.simps [simp del]

definition GetInstancesByPage ::
  "go_runtime \<Rightarrow> 'f float64_ops \<Rightarrow> 'f nacosServiceDiscovery \<Rightarrow> string \<Rightarrow> int \<Rightarrow> int
     \<Rightarrow> panic + DefaultServiceInstance Page" where
  "GetInstancesByPage rt fl n serviceName offset pageSize =
     (let all = GetInstances fl n serviceName
      in case makeslice rt any_size pageSize of
           Inl p \<Rightarrow> Inl p
         | Inr res \<Rightarrow>
             (case page_loop all offset (int_wrap (offset + pageSize)) res of
                Inl p \<Rightarrow> Inl p
              | Inr res \<Rightarrow> NewPage offset pageSize res (int (length all))))"

text \<open>
  The loop of \<open>GetHealthyInstancesByPage\<close>: \<open>for i < len(all) && count < pageSize\<close>.
\<close>

function healthy_loop ::
  "DefaultServiceInstance list \<Rightarrow> bool \<Rightarrow> int \<Rightarrow> int \<Rightarrow> int \<Rightarrow> DefaultServiceInstance list
     \<Rightarrow> panic + DefaultServiceInstance list" where
  "healthy_loop all healthy pageSize i cnt res =
     (if i < int (length all) \<and> cnt < pageSize
      then (if i < 0 then Inl IndexOutOfRange
            else (let ins = all ! nat i
                  in if IsHealthy ins = healthy
                     then healthy_loop all healthy pageSize (i + 1) (cnt + 1) (res @ [all ! nat i])
                     else healthy_loop all healthy pageSize (i + 1) cnt res))
      else Inr res)"
  by pat_completeness auto
termination
  by (relation "measure (\<lambda>(all, healthy, pageSize, i, cnt, res). nat (int (length all) - i))") auto

declare healthy_loop.simps [simp del]

definition GetHealthyInstancesByPage ::
  "go_runtime \<Rightarrow> 'f float64_ops \<Rightarrow> 'f nacosServiceDiscovery \<Rightarrow> string \<Rightarrow> int \<Rightarrow> int \<Rightarrow> bool
     \<Rightarrow> panic + DefaultServiceInstance Page" where
  "GetHealthyInstancesByPage rt fl n serviceName offset pageSize healthy =
     (let all = GetInstances fl n serviceName
      in case makeslice rt any_size pageSize of
           Inl p \<Rightarrow> Inl p
         | Inr res \<Rightarrow>
             (case healthy_loop all healthy pageSize offset 0 res of
                Inl p \<Rightarrow> Inl p
              | Inr res \<Rightarrow> NewPage offset pageSize res (int (length all))))"

text \<open>
  The reading of all pages that the specification describes: \<open>GetInstancesByPage\<close> at the
  offsets \<open>0\<close>, \<open>n\<close>, \<open>2n\<close>, ... with the same page size \<open>n\<close>, until a page holds fewer than
  \<open>n\<close> items, the pages concatenated. The first argument bounds the number of pages read:
  \<open>None\<close> says that the bound was reached before a short page.
\<close>

fun read_all_pages ::
  "nat \<Rightarrow> go_runtime \<Rightarrow> 'f float64_ops \<Rightarrow> 'f nacosServiceDiscovery \<Rightarrow> string \<Rightarrow> int \<Rightarrow> int
     \<Rightarrow> (panic + DefaultServiceInstance list) option" where
  "read_all_pages 0 rt fl n serviceName offset pageSize = None"
| "read_all_pages (Suc fuel) rt fl n serviceName offset pageSize =
     (case GetInstancesByPage rt fl n serviceName offset pageSize of
        Inl p \<Rightarrow> Some (Inl p)
      | Inr page \<Rightarrow>
          (if int (length (pg_Data page)) < pageSize then Some (Inr (pg_Data page))
           else (case read_all_pages fuel rt fl n serviceName (offset + pageSize) pageSize of
                   None \<Rightarrow> None
                 | Some (Inl p) \<Rightarrow> Some (Inl p)
                 | Some (Inr rest) \<Rightarrow> Some (Inr (pg_Data page @ rest)))))"

section \<open>Subscription\<close>

text \<open>
  The translation inside the \<open>SubscribeCallback\<close> that \<open>AddListener\<close> installs: the list
  of instances of the event that the callback dispatches to the listeners.
\<close>

definition SubscribeCallback_translate ::
  "'f float64_ops \<Rightarrow> 'f nacosServiceDiscovery \<Rightarrow> string \<Rightarrow> 'f Instance \<Rightarrow> DefaultServiceInstance" where
  "SubscribeCallback_translate fl n serviceName service =
     (let metadata = ins_Metadata service;
          id = metadata_get metadata idKey;
          metadata = AList.delete idKey metadata
      in DefaultServiceInstance_zero
           \<lparr>d_ID := id,
            d_ServiceName := serviceName,
            d_Host := ins_Ip service,
            d_Port := ins_Port service,
            d_Weight := round_to_int64 fl (ins_Weight service),
            d_Enable := ins_Enable service,
            d_Healthy := True,
            d_Metadata := metadata,
            d_GroupName := n_group n\<rparr>)"

definition SubscribeCallback_instances ::
  "'f float64_ops \<Rightarrow> 'f nacosServiceDiscovery \<Rightarrow> string \<Rightarrow> 'f Instance list
     \<Rightarrow> DefaultServiceInstance list" where
  "SubscribeCallback_instances fl n serviceName services =
     foldl (\<lambda>instances service. instances @ [SubscribeCallback_translate fl n serviceName service])
       [] services"

section \<open>Registration\<close>



chapter \<open>The reference configuration\<close>

section \<open>Constants and collaborators\<close>

definition PodNamespaceEnvKey :: string where "PodNamespaceEnvKey = ''POD_NAMESPACE''"
definition DefaultNamespace :: string where "DefaultNamespace = ''default''"
definition ClusterDomainKey :: string where "ClusterDomainKey = ''CLUSTER_DOMAIN''"
definition DefaultClusterDomain :: string where "DefaultClusterDomain = ''cluster.local''"
definition SVC :: string where "SVC = ''.svc.''"

text \<open>
  The constants whose values the specification does not give are parameters: the name
  of the triple protocol (\<open>constant2.TRIPLE\<close> of the triple library), the built-in mesh
  port, and the remaining keys and filter names of \<open>getURLMap\<close>.
\<close>

record Constants =
  TRIPLE :: string
  DefaultMeshPort :: int
  BeanNameKey :: string
  AppVersionKey :: string
  ReferenceFilterKey :: string
  DefaultReferenceFilters :: string
  GenericFilterKey :: string
  MetricsFilterKey :: string
  Version :: string




text \<open>
  An invoker and a proxy are values of interfaces that other packages implement. An
  invoker answers \<open>GetURL()\<close>, possibly with nil; a proxy keeps what it was built from.
  The field \<open>invoker\<close> of the reference configuration is nil until \<open>Refer\<close> assigns it.
\<close>

datatype Invoker = Invoker (inv_name: string) (GetURL: "URL option") (inv_parts: "Invoker list")

datatype Proxy =
  Proxy (pxy_factory: string) (pxy_invoker: "Invoker option") (pxy_url: URL) (pxy_async: bool)

text \<open>
  The collaborators of \<open>Refer\<close> that are not among the source files, as functions that
  return: the clock, the process environment, the registered post-processors, the
  regular-expression split of package gost, \<open>LoadRegistries\<close> (for the registries of the
  root configuration and the consumer role), the extension tables of protocols,
  clusters and proxy factories, the filter chain and \<open>mergeValue\<close>. \<open>GetCluster\<close> returns
  a cluster, here its \<open>Join\<close> on the static directory of the invokers, or an error.
\<close>

record Extensions =
  ext_now :: int
  ext_LookupEnv :: "string \<Rightarrow> string option"
  ext_ConfigPostProcessors :: "(URL \<Rightarrow> URL) list"
  ext_RegSplit :: "string \<Rightarrow> string \<Rightarrow> string list"
  ext_LoadRegistries :: "string list \<Rightarrow> URL list"
  ext_Protocol_Refer :: "string \<Rightarrow> URL \<Rightarrow> Invoker"
  ext_BuildInvokerChain :: "Invoker \<Rightarrow> string \<Rightarrow> Invoker"
  ext_GetCluster :: "string \<Rightarrow> string + (Invoker list \<Rightarrow> Invoker)"
  ext_GetProxy :: "string \<Rightarrow> Invoker option \<Rightarrow> URL \<Rightarrow> Proxy"
  ext_GetAsyncProxy :: "string \<Rightarrow> Invoker option \<Rightarrow> string \<Rightarrow> URL \<Rightarrow> Proxy"
  ext_mergeValue :: "string \<Rightarrow> string \<Rightarrow> string \<Rightarrow> string"

section \<open>The configuration structs\<close>

text \<open>
  The sections of the root configuration that \<open>Refer\<close> reads. Both are pointers that
  \<open>Init\<close> tests against nil.
\<close>

record ApplicationConfig =
  app_Name :: string
  app_Organization :: string
  app_Module :: string
  app_Version :: string
  app_Owner :: string
  app_Environment :: string

record ConsumerConfig =
  cons_MeshEnabled :: bool
  cons_AdaptiveService :: bool
  cons_ProxyFactory :: string

record RootConfig =
  root_Application :: "ApplicationConfig option"
  root_Consumer :: "ConsumerConfig option"

record MethodConfig =
  mc_Name :: string
  mc_LoadBalance :: string
  mc_Retries :: string
  mc_Sticky :: bool
  mc_RequestTimeout :: string

text \<open>The fields of \<open>ReferenceConfig\<close>, prefixed with the receiver's name \<open>rc\<close>.\<close>

record ReferenceConfig =
  rc_pxy :: "Proxy option"
  rc_invoker :: "Invoker option"
  rc_urls :: "URL list"
  rc_rootConfig :: RootConfig
  rc_id :: string
  rc_InterfaceName :: string
  rc_URL :: string
  rc_Filter :: string
  rc_Protocol :: string
  rc_RegistryIDs :: "string list"
  rc_Cluster :: string
  rc_Loadbalance :: string
  rc_Retries :: string
  rc_Group :: string
  rc_Version :: string
  rc_Serialization :: string
  rc_ProvidedBy :: string
  rc_MethodsConfig :: "MethodConfig list"
  rc_Async :: bool
  rc_Params :: "(string \<times> string) list"
  rc_Generic :: string
  rc_Sticky :: bool
  rc_RequestTimeout :: string
  rc_ForceTag :: bool
  rc_TracingKey :: string
  rc_metaDataType :: string
  rc_metricsEnable :: bool
  rc_MeshProviderPort :: int

section \<open>The mesh rewrite\<close>

definition getEnv :: "Extensions \<Rightarrow> string \<Rightarrow> string \<Rightarrow> string" where
  "getEnv E key fallback = (case ext_LookupEnv E key of Some val \<Rightarrow> val | None \<Rightarrow> fallback)"

definition updateOrCreateMeshURL ::
  "Constants \<Rightarrow> Extensions \<Rightarrow> ReferenceConfig \<Rightarrow> panic + ReferenceConfig" where
  "updateOrCreateMeshURL K E rc =
     (case root_Consumer (rc_rootConfig rc) of
        None \<Rightarrow> Inl NilPointerDereference
      | Some consumer \<Rightarrow>
          (if \<not> cons_MeshEnabled consumer then Inr rc
           else if rc_Protocol rc \<noteq> TRIPLE K then Inl (MeshProtocolPanic (rc_Protocol rc))
           else if rc_ProvidedBy rc = '''' then Inl MeshProvidedByPanic
           else
             (let podNamespace = getEnv E PodNamespaceEnvKey DefaultNamespace;
                  clusterDomain = getEnv E ClusterDomainKey DefaultClusterDomain;
                  meshPort = (if rc_MeshProviderPort rc > 0 then rc_MeshProviderPort rc
                              else DefaultMeshPort K)
              in Inr (rc\<lparr>rc_URL := ''tri://'' @ rc_ProvidedBy rc @ ''.'' @ podNamespace @ SVC
                                      @ clusterDomain @ '':'' @ Itoa meshPort\<rparr>))))"

section \<open>The parameters of the interface URL\<close>




section \<open>\<open>Refer\<close>\<close>










chapter \<open>Concrete values\<close>

text \<open>
  A stand-in for \<open>float64\<close> on the integers, for evaluation: the conversions are the
  identity on the 64-bit range, and \<open>ParseFloat\<close> knows the two numerals used below and
  rejects every other string.
\<close>

definition example_float64 :: "int float64_ops" where
  "example_float64 =
     \<lparr>round_to_int64 = word_of_int, trunc_to_int64 = word_of_int, of_int64 = sint,
      ParseFloat = map_of [(''250'', 250), (''-3'', - 3)]\<rparr>"

text \<open>The limits of a machine with linux/amd64 and 16 GiB of memory.\<close>

definition example_runtime :: go_runtime where
  "example_runtime = \<lparr>rt_maxAlloc = 2 ^ 48, rt_memory = 2 ^ 34\<rparr>"

definition example_url :: "Values \<Rightarrow> string list \<Rightarrow> URL" where
  "example_url ps ms = URL ''tri'' ''10.0.0.1:20000'' ''10.0.0.1'' ''20000'' ''tri://10.0.0.1:20000''
     ps ''/com.X'' '''' '''' ms [] None"

definition example_record :: "string \<Rightarrow> bool \<Rightarrow> int Instance" where
  "example_record ip healthy =
     \<lparr>ins_Ip = ip, ins_Port = 20000, ins_Weight = 100, ins_Enable = True, ins_Healthy = healthy,
      ins_Metadata = [(''id'', ip @ '':20000''), (''zone'', ''a'')]\<rparr>"

definition example_discovery :: "Values \<Rightarrow> int nacosServiceDiscovery" where
  "example_discovery ps =
     \<lparr>n_group = ''DEFAULT_GROUP'', n_descriptor = ''nacos-service-discovery[127.0.0.1:8848]'',
      n_SelectAllInstances =
        (\<lambda>name grp. if name = ''svc'' \<and> grp = ''DEFAULT_GROUP''
           then Some [example_record ''10.0.0.1'' True, example_record ''10.0.0.2'' False,
                      example_record ''10.0.0.3'' True]
           else None),
      n_registryInstances = [], n_serviceNameInstancesMap = [],
      n_registryURL = URL ''registry'' ''127.0.0.1:8848'' ''127.0.0.1'' ''8848''
        ''registry://127.0.0.1:8848'' ps '''' '''' '''' [] [] None\<rparr>"

text \<open>
  Values for the collaborators of \<open>Refer\<close>. The split at \<open>\s*[;]+\s*\<close> cuts the text at
  the semicolons, drops the empty pieces between adjacent semicolons, and trims the
  white space next to a semicolon.
\<close>

definition is_space :: "char \<Rightarrow> bool" where
  "is_space c = (c \<in> set [CHR 0x09, CHR 0x0A, CHR 0x0C, CHR 0x0D, CHR '' ''])"

definition trim_left :: "string \<Rightarrow> string" where
  "trim_left s = dropWhile is_space s"

definition trim_right :: "string \<Rightarrow> string" where
  "trim_right s = rev (dropWhile is_space (rev s))"

definition RegSplit_semicolons :: "string \<Rightarrow> string list" where
  "RegSplit_semicolons text =
     (case strings_Split text CHR '';'' of
        [] \<Rightarrow> [text]
      | [p] \<Rightarrow> [p]
      | p # ps \<Rightarrow>
          trim_right p # map (\<lambda>q. trim_left (trim_right q)) (filter (\<lambda>q. q \<noteq> '''') (butlast ps))
            @ [trim_left (last ps)])"

definition example_constants :: Constants where
  "example_constants =
     \<lparr>TRIPLE = ''tri'', DefaultMeshPort = 80, BeanNameKey = ''bean.name'',
      AppVersionKey = ''app.version'', ReferenceFilterKey = ''reference.filter'',
      DefaultReferenceFilters = ''cshutdown'', GenericFilterKey = ''generic'',
      MetricsFilterKey = ''metrics'', Version = ''3.0.0''\<rparr>"

definition example_extensions :: "(string \<times> string) list \<Rightarrow> Extensions" where
  "example_extensions env =
     \<lparr>ext_now = 1700000000,
      ext_LookupEnv = map_of env,
      ext_ConfigPostProcessors = [],
      ext_RegSplit = (\<lambda>text re. RegSplit_semicolons text),
      ext_LoadRegistries =
        (\<lambda>ids. map (\<lambda>id. URL ''registry'' ''127.0.0.1:8848'' ''127.0.0.1'' ''8848''
                            ''registry://127.0.0.1:8848'' [(''registry'', [id])] '''' '''' '''' [] [] None)
                 ids),
      ext_Protocol_Refer = (\<lambda>name u. Invoker name (Some u) []),
      ext_BuildInvokerChain = (\<lambda>invoker key. Invoker key (GetURL invoker) [invoker]),
      ext_GetCluster =
        (\<lambda>name. if name \<in> set [''failover'', ''zoneAware'', ''adaptivesvc'']
           then Inr (\<lambda>invokers. Invoker name None invokers)
           else Inl (''no cluster named '' @ name)),
      ext_GetProxy = (\<lambda>factory invoker url. Proxy factory invoker url False),
      ext_GetAsyncProxy = (\<lambda>factory invoker callback url. Proxy factory invoker url True),
      ext_mergeValue = (\<lambda>a b c. if a = '''' then c else a)\<rparr>"

definition example_reference :: "bool \<Rightarrow> string \<Rightarrow> string \<Rightarrow> string \<Rightarrow> string \<Rightarrow> ReferenceConfig" where
  "example_reference mesh url protocol providedBy cluster =
     \<lparr>rc_pxy = None, rc_invoker = None, rc_urls = [],
      rc_rootConfig =
        \<lparr>root_Application = Some \<lparr>app_Name = ''app'', app_Organization = '''', app_Module = '''',
            app_Version = '''', app_Owner = '''', app_Environment = ''''\<rparr>,
         root_Consumer = Some \<lparr>cons_MeshEnabled = mesh, cons_AdaptiveService = False,
            cons_ProxyFactory = ''default''\<rparr>\<rparr>,
      rc_id = ''ref'', rc_InterfaceName = ''com.X'', rc_URL = url, rc_Filter = '''',
      rc_Protocol = protocol, rc_RegistryIDs = [''nacos''], rc_Cluster = cluster, rc_Loadbalance = '''',
      rc_Retries = '''', rc_Group = '''', rc_Version = '''', rc_Serialization = '''',
      rc_ProvidedBy = providedBy, rc_MethodsConfig = [], rc_Async = False, rc_Params = [],
      rc_Generic = '''', rc_Sticky = False, rc_RequestTimeout = '''', rc_ForceTag = False,
      rc_TracingKey = '''', rc_metaDataType = '''', rc_metricsEnable = False,
      rc_MeshProviderPort = 0\<rparr>"



text \<open>
  The keys that \<open>MergeURL\<close> overwrites from \<open>anotherUrl\<close>: the four keys of its inner loop,
  and the per-method keys \<open>methods.<m>.<k>\<close> for the methods of \<open>anotherUrl\<close> and these
  four keys.
\<close>

definition override_keys :: "string list" where
  "override_keys = [LoadbalanceKey, ClusterKey, RetriesKey, TimeoutKey]"

definition method_override_keys :: "string list \<Rightarrow> string list" where
  "method_override_keys ms =
     concat (map (\<lambda>m. map (\<lambda>k. ''methods.'' @ m @ ''.'' @ k) override_keys) ms)"

text \<open>What \<open>a.MergeURL(b).GetParam(k, "")\<close> returns.\<close>

definition merged_param :: "URL \<Rightarrow> URL \<Rightarrow> string \<Rightarrow> panic + string" where
  "merged_param a b k = (case MergeURL a b of Inl p \<Rightarrow> Inl p | Inr m \<Rightarrow> Inr (GetParam m k ''''))"

text \<open>
  The URLs for which formatting and parsing again is shown to give the same text. The
  protocol is a scheme in lower case without \<open>+\<close>; the user name, the password, the host
  (which therefore is no IPv6 literal) and the path are made of unreserved characters
  (letters, digits, \<open>-\<close>, \<open>_\<close>, \<open>.\<close>, \<open>~\<close>), the path also of slashes after a first slash; the
  port is made of digits; the keys and values of the parameters contain no \<open>&\<close>, \<open>;\<close>, \<open>%\<close>, \<open>+\<close>,
  \<open>#\<close> and no control byte, the keys no \<open>=\<close> either; no key occurs twice in the map.
\<close>

definition is_lower :: "char \<Rightarrow> bool" where
  "is_lower c = (CHR ''a'' \<le> c \<and> c \<le> CHR ''z'')"

definition is_digit :: "char \<Rightarrow> bool" where
  "is_digit c = (CHR ''0'' \<le> c \<and> c \<le> CHR ''9'')"

definition scheme_char :: "char \<Rightarrow> bool" where
  "scheme_char c = (is_lower c \<or> is_digit c \<or> c = CHR ''-'' \<or> c = CHR ''.'')"

definition plain_char :: "char \<Rightarrow> bool" where
  "plain_char c = (is_alnum c \<or> c = CHR ''-'' \<or> c = CHR ''_'' \<or> c = CHR ''.'' \<or> c = CHR ''~'')"

definition value_char :: "char \<Rightarrow> bool" where
  "value_char c = (c \<noteq> CHR ''&'' \<and> c \<noteq> CHR '';'' \<and> c \<noteq> CHR ''%'' \<and> c \<noteq> CHR ''+''
     \<and> c \<noteq> CHR ''#'' \<and> \<not> c < CHR 0x20 \<and> c \<noteq> CHR 0x7F)"

definition key_char :: "char \<Rightarrow> bool" where
  "key_char c = (value_char c \<and> c \<noteq> CHR ''='')"

definition round_trip_safe :: "URL \<Rightarrow> bool" where
  "round_trip_safe u =
     ((case Protocol u of [] \<Rightarrow> False | c # cs \<Rightarrow> is_lower c \<and> list_all scheme_char cs)
      \<and> list_all plain_char (Username u) \<and> list_all plain_char (Password u)
      \<and> list_all plain_char (Ip u) \<and> list_all is_digit (Port u)
      \<and> (case Path u of [] \<Rightarrow> True
          | c # cs \<Rightarrow> c = CHR ''/'' \<and> list_all (\<lambda>c. plain_char c \<or> c = CHR ''/'') cs)
      \<and> distinct (map fst (params u))
      \<and> list_all (\<lambda>kv. list_all key_char (fst kv) \<and> list_all (list_all value_char) (snd kv))
           (params u))"

text \<open>
  For the proofs about \<open>Encode\<close> and \<open>ParseQuery\<close>: \<open>v[k]\<close>, which is nil for a key that the
  map lacks; the pairs of a key and a value in the order in which \<open>Encode\<close> writes them; and
  the pieces of a query joined by \<open>&\<close>.
\<close>

definition Values_lookup :: "Values \<Rightarrow> string \<Rightarrow> string list" where
  "Values_lookup m k = (case map_of m k of None \<Rightarrow> [] | Some vs \<Rightarrow> vs)"

definition query_pairs :: "Values \<Rightarrow> (string \<times> string) list" where
  "query_pairs m = concat (map (\<lambda>k. map (Pair k) (Values_lookup m k)) (sort (map fst m)))"

fun join_amp :: "string list \<Rightarrow> string" where
  "join_amp [] = ''''"
| "join_amp [p] = p"
| "join_amp (p # q # ps) = p @ ''&'' @ join_amp (q # ps)"

text \<open>
  For the proofs about \<open>String\<close> and \<open>NewURL\<close>: the buffer of \<open>Encode\<close> after the pieces
  \<open>key=value\<close> are written with \<open>&\<close> between them; the bytes of the text that \<open>String\<close> writes
  before the question mark; the authority \<open>[user:password@]ip:port\<close> that \<open>String\<close> writes, and
  the user information that \<open>url.Parse\<close> reads back from it.
\<close>

definition app_pieces :: "string \<Rightarrow> string list \<Rightarrow> string" where
  "app_pieces buf ps = foldl (\<lambda>b p. (if length b > 0 then b @ ''&'' else b) @ p) buf ps"

definition url_char :: "char \<Rightarrow> bool" where
  "url_char c = (plain_char c \<or> c = CHR '':'' \<or> c = CHR ''/'' \<or> c = CHR ''@'')"

definition authority_text :: "string \<Rightarrow> string \<Rightarrow> string \<Rightarrow> string \<Rightarrow> string" where
  "authority_text user pass ip port =
     (if length user = 0 \<and> length pass = 0 then '''' else user @ '':'' @ pass @ ''@'') @ ip @ '':'' @ port"

definition authority_user :: "string \<Rightarrow> string \<Rightarrow> (string \<times> string option) option" where
  "authority_user user pass =
     (if length user = 0 \<and> length pass = 0 then None else Some (user, Some pass))"

text \<open>The service key as the specification writes it: \<open>[group "/"] interface [":" version]\<close>.\<close>

definition spec_serviceKey :: "string \<Rightarrow> string \<Rightarrow> string \<Rightarrow> string" where
  "spec_serviceKey intf grp version =
     (if grp \<noteq> '''' then grp @ ''/'' else '''') @ intf @
     (if version \<noteq> '''' \<and> version \<noteq> ''0.0.0'' then '':'' @ version else '''')"


chapter \<open>Proofs\<close>

section \<open>Properties of the URL\<close>

subsection \<open>Service key\<close>

text \<open>
  C6 (as stated). The claim that the service key is the group followed by a slash, the
  interface, and a colon with the version, for every interface, is false for the empty
  interface: the source returns the empty key before it looks at the group.
\<close>

theorem ServiceKey_empty_interface_counterexample:
  "ServiceKey '''' ''g'' ''1.0.0'' \<noteq> spec_serviceKey '''' ''g'' ''1.0.0''"
  by (simp add: ServiceKey_def spec_serviceKey_def)

text \<open>
  C6 (amended). For a non-empty interface the service key is the group followed by a slash
  when the group is non-empty, then the interface, then a colon and the version when the
  version is neither empty nor \<open>0.0.0\<close>; for the empty interface the key is empty. The
  version \<open>0.0.0\<close> gives the key of the empty version. Two URLs that carry the same
  non-empty \<open>interface\<close> parameter and the same \<open>group\<close> and \<open>version\<close> parameters have the
  same service key, whatever else they hold.
\<close>

theorem ServiceKey_shape:
  "ServiceKey intf grp version = (if intf = '''' then '''' else spec_serviceKey intf grp version)
   \<and> ServiceKey intf grp ''0.0.0'' = ServiceKey intf grp ''''
   \<and> (GetParam c InterfaceKey '''' \<noteq> '''' \<and> GetParam c InterfaceKey '''' = GetParam c' InterfaceKey ''''
        \<and> GetParam c GroupKey '''' = GetParam c' GroupKey ''''
        \<and> GetParam c VersionKey '''' = GetParam c' VersionKey ''''
      \<longrightarrow> URL_ServiceKey c = URL_ServiceKey c')"
proof -
  have gp: "GetParam u k d = (if GetParam u k '''' = '''' then d else GetParam u k '''')" for u k d
    by (simp add: GetParam_def Let_def)
  have 1: "ServiceKey intf grp version = (if intf = '''' then '''' else spec_serviceKey intf grp version)"
    by (simp add: ServiceKey_def spec_serviceKey_def)
  have 2: "ServiceKey intf grp ''0.0.0'' = ServiceKey intf grp ''''"
    by (simp add: ServiceKey_def)
  have 3: "URL_ServiceKey c = URL_ServiceKey c'"
    if "GetParam c InterfaceKey '''' \<noteq> ''''" "GetParam c InterfaceKey '''' = GetParam c' InterfaceKey ''''"
       "GetParam c GroupKey '''' = GetParam c' GroupKey ''''"
       "GetParam c VersionKey '''' = GetParam c' VersionKey ''''"
  proof -
    have "GetParam c InterfaceKey (strings_TrimPrefix (Path c) PathSeparator) = GetParam c InterfaceKey ''''"
      using that(1) gp [of c InterfaceKey "strings_TrimPrefix (Path c) PathSeparator"] by simp
    moreover have "GetParam c' InterfaceKey (strings_TrimPrefix (Path c') PathSeparator) = GetParam c' InterfaceKey ''''"
      using that(1,2) gp [of c' InterfaceKey "strings_TrimPrefix (Path c') PathSeparator"] by simp
    ultimately show ?thesis using that by (simp add: URL_ServiceKey_def)
  qed
  from 1 2 3 show ?thesis by blast
qed

theorem ServiceKey_shape_witness:
  "ServiceKey ''com.X'' ''g'' ''1.0.0'' = ''g/com.X:1.0.0''
   \<and> ServiceKey '''' ''g'' ''1.0.0'' = ''''
   \<and> ServiceKey ''com.X'' ''g'' ''0.0.0'' = ServiceKey ''com.X'' ''g'' ''''
   \<and> URL_ServiceKey (example_url [(''interface'', [''com.X'']), (''version'', [''2'']), (''a'', [''b''])] [])
       = URL_ServiceKey (URL ''dubbo'' '''' ''h'' ''1'' '''' [(''version'', [''2'']), (''interface'', [''com.X''])] ''/other'' '''' '''' [] [] None)"
proof -
  let ?c = "example_url [(''interface'', [''com.X'']), (''version'', [''2'']), (''a'', [''b''])] []"
  let ?c' = "URL ''dubbo'' '''' ''h'' ''1'' '''' [(''version'', [''2'']), (''interface'', [''com.X''])] ''/other'' '''' '''' [] [] None"
  have h: "GetParam ?c InterfaceKey '''' \<noteq> '''' \<and> GetParam ?c InterfaceKey '''' = GetParam ?c' InterfaceKey ''''
        \<and> GetParam ?c GroupKey '''' = GetParam ?c' GroupKey ''''
        \<and> GetParam ?c VersionKey '''' = GetParam ?c' VersionKey ''''"
    by (simp add: GetParam_def Values_Get_def example_url_def InterfaceKey_def GroupKey_def VersionKey_def)
  have a: "ServiceKey ''com.X'' ''g'' ''1.0.0'' = ''g/com.X:1.0.0''"
    using ServiceKey_shape [of "''com.X''" "''g''" "''1.0.0''" ?c ?c'] by (simp add: spec_serviceKey_def)
  have b: "ServiceKey '''' ''g'' ''1.0.0'' = ''''"
    using ServiceKey_shape [of "''''" "''g''" "''1.0.0''" ?c ?c'] by simp
  show ?thesis using a b h ServiceKey_shape [of "''com.X''" "''g''" "''1.0.0''" ?c ?c'] by blast
qed

subsection \<open>Equality at nil\<close>

text \<open>
  C9. \<open>IsEquals\<close> returns false when exactly one of its two URLs is nil, and when both
  are nil it reads a field of the nil \<open>left\<close>: a nil pointer dereference, and no result.
\<close>

theorem IsEquals_nil:
  "IsEquals None None excludes = Inl NilPointerDereference
   \<and> IsEquals None (Some r) excludes = Inr False
   \<and> IsEquals (Some l) None excludes = Inr False"
  by (simp add: IsEquals_def)

theorem IsEquals_nil_witness:
  "IsEquals None None [''timestamp''] = Inl NilPointerDereference
   \<and> IsEquals None (Some (example_url [] [])) [''timestamp''] = Inr False
   \<and> IsEquals (Some (example_url [] [])) None [''timestamp''] = Inr False"
  using IsEquals_nil [of "[''timestamp'']" "example_url [] []" "example_url [] []"] by simp

subsection \<open>Merging\<close>

lemma GetParam_Values_Get: "GetParam u k '''' = Values_Get (params u) k"
  by (cases "params u") (simp_all add: GetParam_def Values_Get_def Let_def)

lemma GetNonDefaultParam_Values_Get:
  "GetNonDefaultParam u k = (Values_Get (params u) k, Values_Get (params u) k \<noteq> '''')"
  by (cases "params u") (simp_all add: GetNonDefaultParam_def Values_Get_def Let_def)

lemma params_set_params [simp]: "params (set_params v u) = v"
  by (simp add: set_params_def)

lemma params_set_Methods [simp]: "params (set_Methods ms u) = params u"
  by (simp add: set_Methods_def)

lemma params_set_attributes [simp]: "params (set_attributes as u) = params u"
  by (simp add: set_attributes_def)

lemma Values_Get_update:
  "Values_Get (AList.update key vals ps) k =
     (if k = key then (case vals of [] \<Rightarrow> '''' | x # _ \<Rightarrow> x) else Values_Get ps k)"
  by (simp add: Values_Get_def update_conv')

lemma Values_Get_params_store:
  "Values_Get (params (params_store key vals u)) k =
     (if k = key then (case vals of [] \<Rightarrow> '''' | x # _ \<Rightarrow> x) else Values_Get (params u) k)"
  by (simp add: params_store_def Values_Get_update)

text \<open>Clone keeps the first value of every key.\<close>

lemma RangeParams_SetParam:
  "list_all (\<lambda>kv. snd kv \<noteq> []) ps \<Longrightarrow>
   \<exists>u'. RangeParams ps (\<lambda>key val u. (True, SetParam u key val)) u = Inr u'
     \<and> params u' = foldl (\<lambda>p kv. AList.update (fst kv) [hd (snd kv)] p) (params u) ps"
proof (induction ps arbitrary: u)
  case Nil
  then show ?case by simp
next
  case (Cons kv ps)
  obtain k v where kv: "kv = (k, v)" by (cases kv)
  with Cons.prems obtain v0 vs where v: "v = v0 # vs" by (cases v) auto
  from Cons.prems have "list_all (\<lambda>kv. snd kv \<noteq> []) ps" by simp
  from Cons.IH [OF this, of "SetParam u k v0"] show ?case
    by (simp add: kv v SetParam_def Values_Set_def)
qed

lemma map_of_foldl_update:
  "distinct (map fst ps) \<Longrightarrow>
   map_of (foldl (\<lambda>p kv. AList.update (fst kv) (f (snd kv)) p) p0 ps) k =
     (case map_of ps k of Some v \<Rightarrow> Some (f v) | None \<Rightarrow> map_of p0 k)"
proof (induction ps arbitrary: p0)
  case Nil
  then show ?case by simp
next
  case (Cons kv ps)
  then have d: "distinct (map fst ps)" and n: "fst kv \<notin> fst ` set ps" by auto
  from n have none: "map_of ps (fst kv) = None" by (simp add: map_of_eq_None_iff)
  show ?case
    using Cons.IH [OF d, of "AList.update (fst kv) (f (snd kv)) p0"] none
    by (cases kv) (auto simp: update_conv' split: option.splits)
qed

lemma RangeAttributes_params:
  "params (RangeAttributes as (\<lambda>key val u. (True, SetAttribute u key val)) u) = params u"
  by (induction as arbitrary: u) (auto simp: SetAttribute_def)

lemma Clone_params:
  assumes "distinct (map fst (params c))" "list_all (\<lambda>kv. snd kv \<noteq> []) (params c)"
  shows "\<exists>u. Clone c = Inr u \<and> (\<forall>k. Values_Get (params u) k = Values_Get (params c) k)"
proof -
  let ?u0 = "set_params [] (copier_Copy c)"
  from RangeParams_SetParam [OF assms(2), of ?u0] obtain u' where
    r: "RangeParams (params c) (\<lambda>key val u. (True, SetParam u key val)) ?u0 = Inr u'"
    and p: "params u' = foldl (\<lambda>p kv. AList.update (fst kv) [hd (snd kv)] p) [] (params c)"
    by auto
  have g: "Values_Get (params u') k = Values_Get (params c) k" for k
  proof (cases "map_of (params c) k")
    case None
    then show ?thesis
      using map_of_foldl_update [OF assms(1), of "\<lambda>v. [hd v]" "[]" k]
      by (simp add: p Values_Get_def)
  next
    case (Some v)
    then have "(k, v) \<in> set (params c)" by (rule map_of_SomeD)
    with assms(2) have "v \<noteq> []" by (auto simp: list_all_iff)
    then obtain v0 vs where "v = v0 # vs" by (cases v) auto
    with Some show ?thesis
      using map_of_foldl_update [OF assms(1), of "\<lambda>v. [hd v]" "[]" k]
      by (simp add: p Values_Get_def)
  qed
  have "Clone c = Inr (RangeAttributes (attributes c) (\<lambda>key val u. (True, SetAttribute u key val)) u')"
    using r by (simp add: Clone_def Let_def)
  with g show ?thesis by (simp add: RangeAttributes_params)
qed

text \<open>The first loop of \<open>MergeURL\<close>.\<close>

lemma Values_Get_merge_missing:
  "Values_Get (params (merge_missing u (key, val))) k =
     (if k = key \<and> Values_Get (params u) key = '''' \<and> val \<noteq> []
      then hd val else Values_Get (params u) k)"
  by (cases val) (auto simp: merge_missing_def GetNonDefaultParam_Values_Get Values_Get_params_store)

lemma Values_Get_foldl_merge_missing:
  "distinct (map fst B) \<Longrightarrow>
   Values_Get (params (foldl merge_missing u B)) k =
     (if Values_Get (params u) k \<noteq> '''' then Values_Get (params u) k else Values_Get B k)"
proof (induction B arbitrary: u)
  case Nil
  then show ?case by (simp add: Values_Get_def)
next
  case (Cons kv B)
  obtain key val where kv: "kv = (key, val)" by (cases kv)
  from Cons.prems have d: "distinct (map fst B)" and n: "key \<notin> fst ` set B" by (auto simp: kv)
  from n have none: "map_of B key = None" by (simp add: map_of_eq_None_iff)
  have rest: "Values_Get B key = ''''" by (simp add: Values_Get_def none)
  have hdB: "Values_Get ((key, v) # B) k' = (if k' = key then (case v of [] \<Rightarrow> '''' | x # _ \<Rightarrow> x) else Values_Get B k')" for k' v
    by (simp add: Values_Get_def)
  show ?case
    using Cons.IH [OF d, of "merge_missing u (key, val)"] rest
    by (cases val) (auto simp: kv Values_Get_merge_missing hdB)
qed

text \<open>The loop over the methods.\<close>

lemma Values_Get_merge_method_key:
  "Values_Get (params (merge_method_key b m u pk)) k =
     (if (k = pk \<or> k = ''methods.'' @ m @ ''.'' @ pk) \<and> Values_Get (params b) k \<noteq> ''''
      then Values_Get (params b) k else Values_Get (params u) k)"
  by (auto simp: merge_method_key_def Let_def GetParam_Values_Get Values_Get_params_store)

lemma Values_Get_foldl_merge_method_key:
  "Values_Get (params (foldl (merge_method_key b m) u pks)) k =
     (if (k \<in> set pks \<or> k \<in> set (map (\<lambda>pk. ''methods.'' @ m @ ''.'' @ pk) pks))
          \<and> Values_Get (params b) k \<noteq> ''''
      then Values_Get (params b) k else Values_Get (params u) k)"
proof (induction pks arbitrary: u)
  case Nil
  then show ?case by simp
next
  case (Cons pk pks)
  show ?case
    using Cons.IH [of "merge_method_key b m u pk"]
    by (auto simp: Values_Get_merge_method_key)
qed

lemma Values_Get_foldl_methods:
  "Values_Get (params (foldl (\<lambda>u method. foldl (merge_method_key b method) u pks) u ms)) k =
     (if ((ms \<noteq> [] \<and> k \<in> set pks)
           \<or> k \<in> set (concat (map (\<lambda>m. map (\<lambda>pk. ''methods.'' @ m @ ''.'' @ pk) pks) ms)))
          \<and> Values_Get (params b) k \<noteq> ''''
      then Values_Get (params b) k else Values_Get (params u) k)"
proof (induction ms arbitrary: u)
  case Nil
  then show ?case by simp
next
  case (Cons m ms)
  show ?case
    using Cons.IH [of "foldl (merge_method_key b m) u pks"]
    by (auto simp: Values_Get_foldl_merge_method_key)
qed

lemma Values_Get_merge_methods:
  "Values_Get (params (merge_methods b u)) k =
     (if ((Methods b \<noteq> [] \<and> k \<in> set override_keys) \<or> k \<in> set (method_override_keys (Methods b)))
          \<and> Values_Get (params b) k \<noteq> ''''
      then Values_Get (params b) k else Values_Get (params u) k)"
  unfolding merge_methods_def override_keys_def method_override_keys_def
  by (simp only: Values_Get_foldl_methods params_set_Methods)

lemma params_merge_attributes: "params (merge_attributes b u) = params u"
proof -
  have "params (foldl (\<lambda>u (attrK, attrV).
              (case GetAttribute u attrK of
                 None \<Rightarrow> set_attributes (AList.update attrK attrV (attributes u)) u
               | Some _ \<Rightarrow> u)) u as) = params u" for as
    by (induction as arbitrary: u) (auto split: option.splits)
  then show ?thesis by (simp add: merge_attributes_def)
qed

lemma MergeURL_Values_Get:
  assumes "distinct (map fst (params a))" "distinct (map fst (params b))"
    "list_all (\<lambda>kv. snd kv \<noteq> []) (params a)"
  shows "\<exists>m. MergeURL a b = Inr m \<and>
    (\<forall>k. Values_Get (params m) k =
       (let A = Values_Get (params a) k; B = Values_Get (params b) k;
            merged = (if A \<noteq> '''' then A else B);
            stamped = (if Values_Get (params a) TimestampKey = ''''
                       then (if k = TimestampKey then Values_Get (params b) TimestampKey
                             else if k = RemoteTimestampKey then ''''
                             else merged)
                       else merged)
        in if ((Methods b \<noteq> [] \<and> k \<in> set override_keys) \<or> k \<in> set (method_override_keys (Methods b)))
              \<and> B \<noteq> ''''
           then B else stamped))"
proof -
  from Clone_params [OF assms(1,3)] obtain u where
    c: "Clone a = Inr u" and g: "\<And>k. Values_Get (params u) k = Values_Get (params a) k" by auto
  show ?thesis
    by (simp add: MergeURL_def c Let_def GetParams_def GetNonDefaultParam_Values_Get
        GetParam_Values_Get ReplaceParams_def params_merge_attributes Values_Get_merge_methods
        Values_Get_params_store Values_Get_foldl_merge_missing [OF assms(2)] g)
qed

text \<open>
  C1 (as stated). The claim that every key \<open>methods.*\<close> takes the value of \<open>b\<close> when \<open>b\<close>
  has it is false: \<open>MergeURL\<close> overwrites only the per-method keys of its four parameter
  keys. For \<open>methods.Get.sticky\<close>, which both URLs carry, the merged URL keeps the value
  of \<open>a\<close>.
\<close>

theorem MergeURL_method_key_counterexample:
  "merged_param (example_url [(''methods.Get.sticky'', [''true''])] [])
       (example_url [(''methods.Get.sticky'', [''false''])] [''Get'']) ''methods.Get.sticky'' = Inr ''true''
   \<and> GetParam (example_url [(''methods.Get.sticky'', [''false''])] [''Get'']) ''methods.Get.sticky'' '''' = ''false''"
proof -
  let ?a = "example_url [(''methods.Get.sticky'', [''true''])] []"
  let ?b = "example_url [(''methods.Get.sticky'', [''false''])] [''Get'']"
  have "\<exists>m. MergeURL ?a ?b = Inr m \<and> Values_Get (params m) ''methods.Get.sticky'' = ''true''"
    using MergeURL_Values_Get [of ?a ?b]
    by (auto simp: example_url_def Values_Get_def Let_def override_keys_def method_override_keys_def
        TimestampKey_def RemoteTimestampKey_def LoadbalanceKey_def ClusterKey_def RetriesKey_def TimeoutKey_def)
  then have "merged_param ?a ?b ''methods.Get.sticky'' = Inr ''true''"
    by (auto simp: merged_param_def GetParam_Values_Get)
  moreover have "GetParam ?b ''methods.Get.sticky'' '''' = ''false''"
    by (simp add: GetParam_Values_Get example_url_def Values_Get_def)
  ultimately show ?thesis by simp
qed

text \<open>
  C1 (amended). For two URLs whose parameter maps are well formed (no key twice, and no
  empty slice of values in \<open>a\<close>), \<open>MergeURL(a, b)\<close> returns a URL, and, a URL having a
  key when its value is not empty:
  for every key outside \<open>loadbalance\<close>, \<open>cluster\<close>, \<open>retries\<close>, \<open>timeout\<close>, the keys
  \<open>methods.<m>.<k>\<close> with \<open>m\<close> a method of \<open>b\<close> and \<open>k\<close> one of these four, and the two
  timestamp keys, the merged value is the value of \<open>a\<close> when \<open>a\<close> has the key, else the
  value of \<open>b\<close>;
  for every key \<open>methods.<m>.<k>\<close> with \<open>m\<close> a method of \<open>b\<close> and \<open>k\<close> one of the four, and
  for the four keys themselves when \<open>b\<close> lists a method, the merged value is the value of
  \<open>b\<close> when \<open>b\<close> has the key, else the value of \<open>a\<close>.
\<close>

theorem MergeURL_bias:
  assumes "distinct (map fst (params a))" "distinct (map fst (params b))"
    "list_all (\<lambda>kv. snd kv \<noteq> []) (params a)"
  shows "\<exists>m. MergeURL a b = Inr m
     \<and> (\<forall>k. k \<notin> set override_keys \<and> k \<notin> set (method_override_keys (Methods b))
              \<and> k \<noteq> TimestampKey \<and> k \<noteq> RemoteTimestampKey
            \<longrightarrow> GetParam m k '''' =
                  (if GetParam a k '''' \<noteq> '''' then GetParam a k '''' else GetParam b k ''''))
     \<and> (\<forall>k. k \<in> set (method_override_keys (Methods b)) \<or> (k \<in> set override_keys \<and> Methods b \<noteq> [])
            \<longrightarrow> GetParam m k '''' =
                  (if GetParam b k '''' \<noteq> '''' then GetParam b k '''' else GetParam a k ''''))"
proof -
  from MergeURL_Values_Get [OF assms] obtain m where
    m: "MergeURL a b = Inr m" and
    g: "\<And>k. Values_Get (params m) k =
       (let A = Values_Get (params a) k; B = Values_Get (params b) k;
            merged = (if A \<noteq> '''' then A else B);
            stamped = (if Values_Get (params a) TimestampKey = ''''
                       then (if k = TimestampKey then Values_Get (params b) TimestampKey
                             else if k = RemoteTimestampKey then ''''
                             else merged)
                       else merged)
        in if ((Methods b \<noteq> [] \<and> k \<in> set override_keys) \<or> k \<in> set (method_override_keys (Methods b)))
              \<and> B \<noteq> ''''
           then B else stamped)"
    by blast
  have left: "GetParam m k '''' =
      (if GetParam a k '''' \<noteq> '''' then GetParam a k '''' else GetParam b k '''')"
    if "k \<notin> set override_keys" "k \<notin> set (method_override_keys (Methods b))"
       "k \<noteq> TimestampKey" "k \<noteq> RemoteTimestampKey" for k
    using that by (simp add: GetParam_Values_Get g Let_def)
  have no_stamp: "k \<noteq> TimestampKey \<and> k \<noteq> RemoteTimestampKey"
    if "k \<in> set (method_override_keys (Methods b)) \<or> k \<in> set override_keys" for k
    using that
    by (auto simp: method_override_keys_def override_keys_def TimestampKey_def RemoteTimestampKey_def
        LoadbalanceKey_def ClusterKey_def RetriesKey_def TimeoutKey_def)
  have right: "GetParam m k '''' =
      (if GetParam b k '''' \<noteq> '''' then GetParam b k '''' else GetParam a k '''')"
    if "k \<in> set (method_override_keys (Methods b)) \<or> (k \<in> set override_keys \<and> Methods b \<noteq> [])" for k
  proof -
    from that have "k \<noteq> TimestampKey \<and> k \<noteq> RemoteTimestampKey" using no_stamp [of k] by blast
    with that show ?thesis by (auto simp: GetParam_Values_Get g Let_def)
  qed
  from m left right show ?thesis by blast
qed

theorem MergeURL_bias_witness:
  "\<exists>m. MergeURL
      (example_url [(''cluster'', [''failover'']), (''app'', [''x'']), (''methods.Get.retries'', [''1''])] [])
      (example_url [(''cluster'', [''random'']), (''app'', [''y'']), (''side'', [''consumer'']),
                    (''methods.Get.retries'', [''3''])] [''Get'']) = Inr m
     \<and> GetParam m ''app'' '''' = ''x'' \<and> GetParam m ''side'' '''' = ''consumer''
     \<and> GetParam m ''cluster'' '''' = ''random'' \<and> GetParam m ''methods.Get.retries'' '''' = ''3''"
proof -
  let ?a = "example_url [(''cluster'', [''failover'']), (''app'', [''x'']), (''methods.Get.retries'', [''1''])] []"
  let ?b = "example_url [(''cluster'', [''random'']), (''app'', [''y'']), (''side'', [''consumer'']),
                    (''methods.Get.retries'', [''3''])] [''Get'']"
  have h: "distinct (map fst (params ?a))" "distinct (map fst (params ?b))"
    "list_all (\<lambda>kv. snd kv \<noteq> []) (params ?a)"
    by (simp_all add: example_url_def)
  from MergeURL_bias [OF h] obtain m where
    m: "MergeURL ?a ?b = Inr m" and
    l: "\<And>k. k \<notin> set override_keys \<and> k \<notin> set (method_override_keys (Methods ?b))
              \<and> k \<noteq> TimestampKey \<and> k \<noteq> RemoteTimestampKey
            \<Longrightarrow> GetParam m k '''' =
                  (if GetParam ?a k '''' \<noteq> '''' then GetParam ?a k '''' else GetParam ?b k '''')" and
    r: "\<And>k. k \<in> set (method_override_keys (Methods ?b)) \<or> (k \<in> set override_keys \<and> Methods ?b \<noteq> [])
            \<Longrightarrow> GetParam m k '''' =
                  (if GetParam ?b k '''' \<noteq> '''' then GetParam ?b k '''' else GetParam ?a k '''')"
    by blast
  have ks: "method_override_keys [''Get''] =
      [''methods.Get.loadbalance'', ''methods.Get.cluster'', ''methods.Get.retries'', ''methods.Get.timeout'']"
    "override_keys = [''loadbalance'', ''cluster'', ''retries'', ''timeout'']"
    "Methods ?b = [''Get'']"
    by (simp_all add: example_url_def override_keys_def method_override_keys_def
        LoadbalanceKey_def ClusterKey_def RetriesKey_def TimeoutKey_def)
  have 1: "GetParam m ''app'' '''' = ''x''"
    using l [of "''app''"]
    by (simp add: ks TimestampKey_def RemoteTimestampKey_def GetParam_Values_Get Values_Get_def example_url_def)
  have 2: "GetParam m ''side'' '''' = ''consumer''"
    using l [of "''side''"]
    by (simp add: ks TimestampKey_def RemoteTimestampKey_def GetParam_Values_Get Values_Get_def example_url_def)
  have 3: "GetParam m ''cluster'' '''' = ''random''"
    using r [of "''cluster''"]
    by (simp add: ks GetParam_Values_Get Values_Get_def example_url_def)
  have 4: "GetParam m ''methods.Get.retries'' '''' = ''3''"
    using r [of "''methods.Get.retries''"]
    by (simp add: ks GetParam_Values_Get Values_Get_def example_url_def)
  from m 1 2 3 4 show ?thesis by blast
qed

text \<open>
  C2 (the code at the failing input). \<open>a\<close> carries \<open>timestamp=100\<close> and \<open>b\<close> carries
  \<open>timestamp=200\<close>: the merged URL keeps \<open>timestamp=100\<close> and has no \<open>remote.timestamp\<close>,
  where the claim expects \<open>timestamp=200\<close> and \<open>remote.timestamp=100\<close>. The branch that
  stores the two keys runs only when \<open>a\<close> has no timestamp.
\<close>

theorem MergeURL_timestamp_kept:
  "merged_param (example_url [(''timestamp'', [''100''])] []) (example_url [(''timestamp'', [''200''])] [])
       TimestampKey = Inr ''100''
   \<and> merged_param (example_url [(''timestamp'', [''100''])] []) (example_url [(''timestamp'', [''200''])] [])
       RemoteTimestampKey = Inr ''''"
proof -
  let ?a = "example_url [(''timestamp'', [''100''])] []"
  let ?b = "example_url [(''timestamp'', [''200''])] []"
  have "\<exists>m. MergeURL ?a ?b = Inr m \<and> Values_Get (params m) TimestampKey = ''100''
      \<and> Values_Get (params m) RemoteTimestampKey = ''''"
    using MergeURL_Values_Get [of ?a ?b]
    by (auto simp: example_url_def Values_Get_def Let_def override_keys_def method_override_keys_def
        TimestampKey_def RemoteTimestampKey_def LoadbalanceKey_def ClusterKey_def RetriesKey_def TimeoutKey_def)
  then show ?thesis
    by (auto simp: merged_param_def GetParam_Values_Get)
qed

subsection \<open>Formatting and parsing again\<close>

text \<open>
  The lemmas follow the path of the text through \<open>NewURL\<close>: \<open>QueryUnescape\<close> undoes
  \<open>QueryEscape\<close>; \<open>Encode\<close> writes the pairs of the map in the order of the sorted keys;
  \<open>ParseQuery\<close> reads the pairs back; \<open>url.Parse\<close> finds the scheme, the authority and the
  path that \<open>String\<close> wrote; \<open>SplitHostPort\<close> splits the host it wrote.
\<close>

lemma hex_digits: "list_all (\<lambda>n. ishex (upperhex n) \<and> unhex (upperhex n) = n) [0..<16]"
  by code_simp

lemma hex_digit: "n < 16 \<Longrightarrow> ishex (upperhex n) \<and> unhex (upperhex n) = n"
proof -
  assume "n < 16"
  then have "n \<in> set [0..<16]" by simp
  with hex_digits show ?thesis unfolding list_all_iff by (rule bspec)
qed

lemma unescape_percent:
  "unescape (CHR ''%'' # h1 # h2 # rest) mode =
     (let v = char_of (16 * unhex h1 + unhex h2)
      in if \<not> ishex h1 \<or> \<not> ishex h2 then None
         else if mode = encodeHost \<and> unhex h1 < 8 \<and> [CHR ''%'', h1, h2] \<noteq> ''%25'' then None
         else if mode = encodeZone \<and> [CHR ''%'', h1, h2] \<noteq> ''%25'' \<and> v \<noteq> CHR '' ''
                 \<and> shouldEscape v encodeHost then None
         else map_option ((#) v) (unescape rest mode))"
  by simp

lemma unescape_percent_short:
  "unescape [CHR ''%''] mode = None" "unescape [CHR ''%'', h] mode = None"
  by simp_all

lemma unescape_plain:
  "c \<noteq> CHR ''%'' \<Longrightarrow> unescape (c # cs) mode =
     (if c = CHR ''+'' then
        map_option ((#) (if mode = encodeQueryComponent then CHR '' '' else CHR ''+'')) (unescape cs mode)
      else if (mode = encodeHost \<or> mode = encodeZone) \<and> c < CHR 0x80 \<and> shouldEscape c encodeHost
        then None
      else map_option ((#) c) (unescape cs mode))"
  by simp

lemma unescape_append:
  "unescape a mode = Some a' \<Longrightarrow> unescape (a @ b) mode = map_option ((@) a') (unescape b mode)"
proof (induction "length a" arbitrary: a a' rule: less_induct)
  case less
  show ?case
  proof (cases a)
    case Nil
    with less.prems show ?thesis by (cases "unescape b mode") auto
  next
    case (Cons c cs)
    show ?thesis
    proof (cases "c = CHR ''%''")
      case True
      from less.prems Cons True obtain h1 h2 rest where cs: "cs = h1 # h2 # rest"
        by (cases cs; cases "tl cs") auto
      have a: "a = CHR ''%'' # h1 # h2 # rest" using Cons True cs by simp
      from less.prems obtain r where r: "unescape rest mode = Some r"
        and a': "a' = char_of (16 * unhex h1 + unhex h2) # r"
        and ok: "unescape (CHR ''%'' # h1 # h2 # rest @ b) mode
                  = map_option ((#) (char_of (16 * unhex h1 + unhex h2))) (unescape (rest @ b) mode)"
        unfolding a unescape_percent by (auto simp: Let_def split: if_splits)
      have "length rest < length a" using a by simp
      from less.hyps [OF this r] show ?thesis
        using ok by (cases "unescape b mode") (simp_all add: a a')
    next
      case False
      from less.prems Cons False obtain r x where r: "unescape cs mode = Some r"
        and a': "a' = x # r"
        and ok: "unescape (c # cs @ b) mode = map_option ((#) x) (unescape (cs @ b) mode)"
        by (auto simp: unescape_plain split: if_splits)
      have "length cs < length a" using Cons by simp
      from less.hyps [OF this r] show ?thesis
        using ok by (cases "unescape b mode") (simp_all add: Cons a')
    qed
  qed
qed

lemma unescape_identity:
  "list_all (\<lambda>c. c \<noteq> CHR ''%'' \<and> c \<noteq> CHR ''+'') s \<Longrightarrow> mode \<noteq> encodeHost \<Longrightarrow> mode \<noteq> encodeZone
   \<Longrightarrow> unescape s mode = Some s"
  by (induction s) (simp_all add: unescape_plain)

lemma not_shouldEscape_query:
  "\<not> shouldEscape c encodeQueryComponent \<Longrightarrow> c \<noteq> CHR ''%'' \<and> c \<noteq> CHR ''+''"
  by (auto simp: shouldEscape_def is_alnum_def)

lemma of_char_hex: "char_of (16 * (of_char c div 16) + of_char c mod (16::nat)) = c"
  by simp

lemma QueryUnescape_QueryEscape: "QueryUnescape (QueryEscape s) = Some s"
proof (induction s)
  case Nil
  then show ?case by (simp add: QueryUnescape_def QueryEscape_def escape_def)
next
  case (Cons c s)
  let ?hi = "(of_char c :: nat) div 16" and ?lo = "(of_char c :: nat) mod 16"
  have hi: "?hi < 16" using nat_of_char_less_256 [of c] by arith
  have lo: "?lo < 16" by simp
  from Cons have IH: "unescape (escape s encodeQueryComponent) encodeQueryComponent = Some s"
    by (simp add: QueryUnescape_def QueryEscape_def)
  have esc: "escape (c # s) encodeQueryComponent =
      (if shouldEscape c encodeQueryComponent
       then (if c = CHR '' '' then ''+'' else [CHR ''%'', upperhex ?hi, upperhex ?lo])
       else [c]) @ escape s encodeQueryComponent"
    by (simp add: escape_def)
  show ?case
  proof (cases "shouldEscape c encodeQueryComponent")
    case False
    show ?thesis
      unfolding QueryUnescape_def QueryEscape_def esc
      using False not_shouldEscape_query [OF False] IH by (simp add: unescape_plain)
  next
    case True
    show ?thesis
    proof (cases "c = CHR '' ''")
      case sp: True
      show ?thesis
        unfolding QueryUnescape_def QueryEscape_def esc using True sp IH by simp
    next
      case nsp: False
      have "unescape (CHR ''%'' # upperhex ?hi # upperhex ?lo # escape s encodeQueryComponent) encodeQueryComponent
          = Some (c # s)"
        unfolding unescape_percent using hex_digit [OF hi] hex_digit [OF lo] IH
        by (simp add: Let_def of_char_hex)
      then show ?thesis
        unfolding QueryUnescape_def QueryEscape_def esc using True nsp by simp
    qed
  qed
qed

lemma foldl_Encode_value:
  "foldl (Encode_value ke) buf vs = app_pieces buf (map (\<lambda>v. ke @ ''='' @ QueryEscape v) vs)"
  unfolding app_pieces_def
  by (induction vs arbitrary: buf) (simp_all add: Encode_value_def Let_def)

lemma foldl_app_pieces:
  "foldl (\<lambda>buf k. app_pieces buf (f k)) buf ks = app_pieces buf (concat (map f ks))"
  unfolding app_pieces_def
  by (induction ks arbitrary: buf) simp_all

lemma app_pieces_join:
  "list_all (\<lambda>p. p \<noteq> []) ps \<Longrightarrow>
   app_pieces buf ps = (if ps = [] then buf else if buf = [] then join_amp ps else buf @ ''&'' @ join_amp ps)"
proof (induction ps arbitrary: buf)
  case Nil
  then show ?case by (simp add: app_pieces_def)
next
  case (Cons p ps)
  have step: "app_pieces buf (p # ps) = app_pieces ((if length buf > 0 then buf @ ''&'' else buf) @ p) ps"
    by (simp add: app_pieces_def)
  from Cons.prems have p: "p \<noteq> []" and rest: "list_all (\<lambda>p. p \<noteq> []) ps" by simp_all
  show ?case
    unfolding step Cons.IH [OF rest]
    using p by (cases ps) auto
qed

lemma Values_Encode_pairs:
  "Values_Encode m = join_amp (map (\<lambda>kv. QueryEscape (fst kv) @ CHR ''='' # QueryEscape (snd kv)) (query_pairs m))"
proof (cases m)
  case Nil
  then show ?thesis by (simp add: Values_Encode_def query_pairs_def)
next
  case (Cons a list)
  let ?piece = "\<lambda>kv. QueryEscape (fst kv) @ CHR ''='' # QueryEscape (snd kv)"
  have "Values_Encode m =
      foldl (\<lambda>buf k. app_pieces buf (map (\<lambda>v. QueryEscape k @ ''='' @ QueryEscape v) (Values_lookup m k)))
        '''' (sort (map fst m))"
    using Cons by (simp add: Values_Encode_def foldl_Encode_value Values_lookup_def)
  also have "\<dots> = app_pieces '''' (concat (map (\<lambda>k. map (\<lambda>v. QueryEscape k @ ''='' @ QueryEscape v)
      (Values_lookup m k)) (sort (map fst m))))"
    by (rule foldl_app_pieces)
  also have "concat (map (\<lambda>k. map (\<lambda>v. QueryEscape k @ ''='' @ QueryEscape v) (Values_lookup m k)) (sort (map fst m)))
      = map ?piece (query_pairs m)"
    by (simp add: query_pairs_def map_concat comp_def)
  also have "app_pieces '''' (map ?piece (query_pairs m)) = join_amp (map ?piece (query_pairs m))"
    by (subst app_pieces_join) (simp_all add: list_all_iff)
  finally show ?thesis .
qed

lemma strings_Split_no_sep: "sep \<notin> set p \<Longrightarrow> strings_Split p sep = [p]"
  by (induction p) auto

lemma strings_Split_append:
  "sep \<notin> set p \<Longrightarrow> strings_Split (p @ sep # rest) sep = p # strings_Split rest sep"
  by (induction p) auto

lemma strings_Split_join_amp:
  "ps \<noteq> [] \<Longrightarrow> list_all (\<lambda>p. CHR ''&'' \<notin> set p) ps \<Longrightarrow> strings_Split (join_amp ps) CHR ''&'' = ps"
proof (induction ps rule: join_amp.induct)
  case 1
  then show ?case by simp
next
  case (2 p)
  then show ?case by (simp add: strings_Split_no_sep)
next
  case (3 p q ps)
  then show ?case by (simp add: strings_Split_append)
qed

lemma sublist_single: "sublist [x] ys \<longleftrightarrow> x \<in> set ys"
  by (induction ys) (auto simp: sublist_Cons_right)

lemma strings_Cut_piece:
  "sep \<notin> set k \<Longrightarrow> strings_Cut (k @ sep # v) sep = (k, v, True)"
  by (induction k) (auto simp: strings_Cut_def)

lemma value_char_no_escape: "list_all value_char s \<Longrightarrow> list_all (\<lambda>c. c \<noteq> CHR ''%'' \<and> c \<noteq> CHR ''+'') s"
  by (induction s) (auto simp: value_char_def)

lemma parseQuery_step_piece:
  assumes "list_all key_char k" "list_all value_char v"
  shows "parseQuery_step (m, e) (k @ CHR ''='' # v) = (Values_Add m k v, e)"
proof -
  have kv: "list_all value_char k" and noeq: "CHR ''='' \<notin> set k"
    using assms(1) by (auto simp: key_char_def list_all_iff)
  have semi: "\<not> strings_Contains (k @ CHR ''='' # v) '';''"
    using kv assms(2) by (auto simp: strings_Contains_def sublist_single value_char_def list_all_iff)
  have cut: "strings_Cut (k @ CHR ''='' # v) CHR ''='' = (k, v, True)"
    using strings_Cut_piece [OF noeq, of v] by simp
  have uk: "QueryUnescape k = Some k" and uv: "QueryUnescape v = Some v"
    using kv assms(2) by (simp_all add: QueryUnescape_def unescape_identity value_char_no_escape)
  show ?thesis
    by (simp add: parseQuery_step_def semi cut uk uv)
qed

lemma foldl_parseQuery_step_pieces:
  "list_all (\<lambda>kv. list_all key_char (fst kv) \<and> list_all value_char (snd kv)) ps \<Longrightarrow>
   foldl parseQuery_step (m, e) (map (\<lambda>kv. fst kv @ CHR ''='' # snd kv) ps)
     = (foldl (\<lambda>m kv. Values_Add m (fst kv) (snd kv)) m ps, e)"
  by (induction ps arbitrary: m) (simp_all add: parseQuery_step_piece)

lemma ParseQuery_join_amp:
  assumes "list_all (\<lambda>kv. list_all key_char (fst kv) \<and> list_all value_char (snd kv)) ps"
  shows "ParseQuery (join_amp (map (\<lambda>kv. fst kv @ CHR ''='' # snd kv) ps))
     = (foldl (\<lambda>m kv. Values_Add m (fst kv) (snd kv)) [] ps, False)"
proof (cases ps)
  case Nil
  then show ?thesis by (simp add: ParseQuery_def parseQuery_step_def strings_Contains_def)
next
  case (Cons a list)
  have "list_all (\<lambda>p. CHR ''&'' \<notin> set p) (map (\<lambda>kv. fst kv @ CHR ''='' # snd kv) ps)"
    using assms by (auto simp: list_all_iff key_char_def value_char_def)
  then have "strings_Split (join_amp (map (\<lambda>kv. fst kv @ CHR ''='' # snd kv) ps)) CHR ''&''
      = map (\<lambda>kv. fst kv @ CHR ''='' # snd kv) ps"
    using Cons by (intro strings_Split_join_amp) simp_all
  then show ?thesis
    by (simp add: ParseQuery_def foldl_parseQuery_step_pieces [OF assms])
qed

lemma Values_lookup_Add:
  "Values_lookup (Values_Add m k v) k' = (if k' = k then Values_lookup m k @ [v] else Values_lookup m k')"
  by (simp add: Values_lookup_def Values_Add_def update_conv')

lemma keys_Values_Add: "fst ` set (Values_Add m k v) = insert k (fst ` set m)"
  using dom_update [of k _ m] by (simp add: Values_Add_def)

lemma distinct_Values_Add: "distinct (map fst m) \<Longrightarrow> distinct (map fst (Values_Add m k v))"
  by (simp add: Values_Add_def distinct_update)

lemma Values_lookup_foldl_Add:
  "Values_lookup (foldl (\<lambda>m kv. Values_Add m (fst kv) (snd kv)) m ps) k
     = Values_lookup m k @ map snd (filter (\<lambda>p. fst p = k) ps)"
  by (induction ps arbitrary: m) (simp_all add: Values_lookup_Add)

lemma keys_foldl_Add:
  "set (map fst (foldl (\<lambda>m kv. Values_Add m (fst kv) (snd kv)) m ps)) = set (map fst m) \<union> set (map fst ps)"
  by (induction ps arbitrary: m) (simp_all add: keys_Values_Add)

lemma distinct_foldl_Add:
  "distinct (map fst m) \<Longrightarrow> distinct (map fst (foldl (\<lambda>m kv. Values_Add m (fst kv) (snd kv)) m ps))"
  by (induction ps arbitrary: m) (simp_all add: distinct_Values_Add)

lemma filter_concat_blocks:
  "distinct ks \<Longrightarrow>
   map snd (filter (\<lambda>p. fst p = k) (concat (map (\<lambda>k. map (Pair k) (g k)) ks)))
     = (if k \<in> set ks then g k else [])"
proof (induction ks)
  case Nil
  then show ?case by simp
next
  case (Cons a ks)
  have blk: "filter (\<lambda>p. fst p = k) (map (Pair a) (g a)) = (if a = k then map (Pair a) (g a) else [])"
    by (induction "g a") (auto simp: filter_empty_conv)
  from Cons show ?case by (auto simp: blk comp_def)
qed

lemma concat_filter_nonempty:
  "concat (map g (filter (\<lambda>k. g k \<noteq> []) ks)) = concat (map g ks)"
  by (induction ks) simp_all

lemma query_pairs_reparse:
  assumes "distinct (map fst m)"
  shows "query_pairs (foldl (\<lambda>m kv. Values_Add m (fst kv) (snd kv)) [] (query_pairs m)) = query_pairs m"
proof -
  let ?m' = "foldl (\<lambda>m kv. Values_Add m (fst kv) (snd kv)) [] (query_pairs m)"
  let ?ks = "sort (map fst m)"
  let ?g = "\<lambda>k. map (Pair k) (Values_lookup m k)"
  have dks: "distinct ?ks" using assms by simp
  have absent: "Values_lookup m k = []" if "k \<notin> set (map fst m)" for k
  proof -
    from that have "map_of m k = None" by (simp add: map_of_eq_None_iff)
    then show ?thesis by (simp add: Values_lookup_def)
  qed
  have look: "Values_lookup ?m' k = Values_lookup m k" for k
  proof -
    have "Values_lookup ?m' k = map snd (filter (\<lambda>p. fst p = k) (query_pairs m))"
      by (simp add: Values_lookup_foldl_Add) (simp add: Values_lookup_def)
    also have "\<dots> = (if k \<in> set ?ks then Values_lookup m k else [])"
      unfolding query_pairs_def by (rule filter_concat_blocks [OF dks])
    also have "\<dots> = Values_lookup m k" using absent [of k] by simp
    finally show ?thesis .
  qed
  have "fst ` set (concat (map (\<lambda>k. map (Pair k) (g k)) ks)) = {k \<in> set ks. g k \<noteq> []}"
    for g :: "string \<Rightarrow> string list" and ks
  proof (intro set_eqI iffI)
    fix k assume "k \<in> fst ` set (concat (map (\<lambda>k. map (Pair k) (g k)) ks))"
    then show "k \<in> {k \<in> set ks. g k \<noteq> []}" by auto
  next
    fix k assume "k \<in> {k \<in> set ks. g k \<noteq> []}"
    then obtain v where "k \<in> set ks" "v \<in> set (g k)" by (cases "g k") auto
    then have "(k, v) \<in> set (concat (map (\<lambda>k. map (Pair k) (g k)) ks))" by auto
    then show "k \<in> fst ` set (concat (map (\<lambda>k. map (Pair k) (g k)) ks))" by force
  qed
  then have "fst ` set (query_pairs m) = {k \<in> set ?ks. Values_lookup m k \<noteq> []}"
    unfolding query_pairs_def by blast
  then have keys: "set (map fst ?m') = {k \<in> set (map fst m). Values_lookup m k \<noteq> []}"
    using keys_foldl_Add [of "[]" "query_pairs m"] by simp
  have srt: "sort (map fst ?m') = filter (\<lambda>k. Values_lookup m k \<noteq> []) ?ks"
  proof (rule sorted_distinct_set_unique)
    show "sorted (sort (map fst ?m'))" by simp
    show "distinct (sort (map fst ?m'))" by (simp add: distinct_foldl_Add)
    show "sorted (filter (\<lambda>k. Values_lookup m k \<noteq> []) ?ks)" by (simp add: sorted_wrt_filter)
    show "distinct (filter (\<lambda>k. Values_lookup m k \<noteq> []) ?ks)" using dks by simp
    show "set (sort (map fst ?m')) = set (filter (\<lambda>k. Values_lookup m k \<noteq> []) ?ks)"
      using keys by auto
  qed
  have "query_pairs ?m' = concat (map (\<lambda>k. map (Pair k) (Values_lookup ?m' k)) (sort (map fst ?m')))"
    by (rule query_pairs_def)
  also have "\<dots> = concat (map ?g (filter (\<lambda>k. Values_lookup m k \<noteq> []) ?ks))"
    by (simp only: look srt)
  also have "filter (\<lambda>k. Values_lookup m k \<noteq> []) ?ks = filter (\<lambda>k. ?g k \<noteq> []) ?ks"
    by simp
  also have "concat (map ?g (filter (\<lambda>k. ?g k \<noteq> []) ?ks)) = concat (map ?g ?ks)"
    by (rule concat_filter_nonempty)
  also have "\<dots> = query_pairs m" by (simp only: query_pairs_def)
  finally show ?thesis .
qed

lemma query_pairs_chars:
  assumes "list_all (\<lambda>kv. list_all key_char (fst kv) \<and> list_all (list_all value_char) (snd kv)) m"
  shows "list_all (\<lambda>kv. list_all key_char (fst kv) \<and> list_all value_char (snd kv)) (query_pairs m)"
proof -
  have "list_all key_char k \<and> list_all value_char v" if "(k, v) \<in> set (query_pairs m)" for k v
  proof -
    from that have v: "v \<in> set (Values_lookup m k)" by (auto simp: query_pairs_def)
    then obtain vs where "map_of m k = Some vs" "v \<in> set vs"
      by (cases "map_of m k") (auto simp: Values_lookup_def)
    then have "(k, vs) \<in> set m" by (auto dest: map_of_SomeD)
    with assms \<open>v \<in> set vs\<close> show ?thesis by (auto simp: list_all_iff)
  qed
  then show ?thesis by (auto simp: list_all_iff)
qed

lemma plain_char_not_special:
  "plain_char c \<Longrightarrow> c \<noteq> CHR ''%'' \<and> c \<noteq> CHR ''+'' \<and> c \<noteq> CHR '':'' \<and> c \<noteq> CHR ''/'' \<and> c \<noteq> CHR ''?''
     \<and> c \<noteq> CHR ''#'' \<and> c \<noteq> CHR ''@'' \<and> c \<noteq> CHR ''['' \<and> c \<noteq> CHR '']'' \<and> c \<noteq> CHR '',''
     \<and> c \<noteq> CHR '' '' \<and> c \<noteq> CHR ''*''"
  by (auto simp: plain_char_def is_alnum_def)

lemma plain_char_not_ctl: "plain_char c \<Longrightarrow> \<not> c < CHR 0x20 \<and> c \<noteq> CHR 0x7F \<and> c < CHR 0x80"
  by (auto simp: plain_char_def is_alnum_def less_eq_char_def less_char_def)

lemma plain_char_host: "plain_char c \<Longrightarrow> \<not> shouldEscape c encodeHost"
  by (auto simp: plain_char_def shouldEscape_def)

lemma plain_char_userinfo: "plain_char c \<Longrightarrow> is_alnum c \<or> c \<in> set (''-._:~!$&'' @ [CHR 0x27] @ ''()*+,;=%@'')"
  by (auto simp: plain_char_def)

lemma is_digit_plain: "is_digit c \<Longrightarrow> plain_char c"
  by (auto simp: plain_char_def is_alnum_def is_digit_def)

lemma scheme_char_plain: "scheme_char c \<Longrightarrow> plain_char c"
  by (auto simp: scheme_char_def plain_char_def is_alnum_def is_digit_def is_lower_def)

lemma is_lower_not_upper: "is_lower c \<Longrightarrow> \<not> (CHR ''A'' \<le> c \<and> c \<le> CHR ''Z'')"
  by (auto simp: is_lower_def less_eq_char_def)

lemma scheme_char_not_upper: "scheme_char c \<Longrightarrow> \<not> (CHR ''A'' \<le> c \<and> c \<le> CHR ''Z'')"
  by (auto simp: scheme_char_def is_lower_def is_digit_def less_eq_char_def)

lemma strings_ToLower_scheme: "list_all scheme_char s \<Longrightarrow> strings_ToLower s = s"
  by (induction s) (auto simp: strings_ToLower_def scheme_char_not_upper)

lemma getScheme_loop_scheme:
  "0 < i \<Longrightarrow> list_all scheme_char xs \<Longrightarrow>
   getScheme_loop i raw (xs @ CHR '':'' # rest)
     = Some (take (i + length xs) raw, drop (Suc (i + length xs)) raw)"
proof (induction xs arbitrary: i)
  case Nil
  then show ?case by simp
next
  case (Cons c xs)
  from Cons.prems have c: "scheme_char c" and xs: "list_all scheme_char xs" by simp_all
  have step: "getScheme_loop i raw ((c # xs) @ CHR '':'' # rest) = getScheme_loop (Suc i) raw (xs @ CHR '':'' # rest)"
    using c Cons.prems(1) by (auto simp: scheme_char_def is_lower_def is_digit_def)
  show ?case
    unfolding step using Cons.IH [of "Suc i", OF _ xs] by simp
qed

lemma getScheme_scheme:
  assumes "is_lower c" "list_all scheme_char cs"
  shows "getScheme (c # cs @ CHR '':'' # rest) = Some (c # cs, rest)"
proof -
  have "getScheme (c # cs @ CHR '':'' # rest)
      = getScheme_loop (Suc 0) (c # cs @ CHR '':'' # rest) (cs @ CHR '':'' # rest)"
    using assms(1) by (simp add: getScheme_def is_lower_def)
  also have "\<dots> = Some (take (Suc 0 + length cs) (c # cs @ CHR '':'' # rest),
      drop (Suc (Suc 0 + length cs)) (c # cs @ CHR '':'' # rest))"
    by (rule getScheme_loop_scheme) (simp_all add: assms)
  finally show ?thesis by simp
qed

lemma takeWhile_sep: "sep \<notin> set a \<Longrightarrow> takeWhile (\<lambda>c. c \<noteq> sep) (a @ sep # b) = a"
  by (induction a) auto

lemma dropWhile_sep: "sep \<notin> set a \<Longrightarrow> dropWhile (\<lambda>c. c \<noteq> sep) (a @ sep # b) = sep # b"
  by (induction a) auto

lemma strings_LastIndex_append:
  "sep \<notin> set b \<Longrightarrow> strings_LastIndex (a @ sep # b) sep = Some (length a)"
proof -
  assume n: "sep \<notin> set b"
  have "takeWhile (\<lambda>c. c \<noteq> sep) (rev b @ sep # rev a) = rev b"
    using n by (intro takeWhile_sep) simp
  then show ?thesis by (simp add: strings_LastIndex_def)
qed

lemma strings_LastIndex_none: "sep \<notin> set s \<Longrightarrow> strings_LastIndex s sep = None"
  by (simp add: strings_LastIndex_def)

lemma strings_Index_append:
  "sep \<notin> set a \<Longrightarrow> strings_Index (a @ sep # b) sep = Some (length a)"
  by (simp add: strings_Index_def takeWhile_sep)

lemma strings_Index_none: "sep \<notin> set s \<Longrightarrow> strings_Index s sep = None"
  by (simp add: strings_Index_def)

lemma unescape_plain_host:
  "list_all (\<lambda>c. plain_char c \<or> c = CHR '':'') s \<Longrightarrow> unescape s encodeHost = Some s"
proof (induction s)
  case Nil
  then show ?case by simp
next
  case (Cons c s)
  have colon: "\<not> shouldEscape CHR '':'' encodeHost" by (simp add: shouldEscape_def is_alnum_def)
  from Cons show ?case
    using plain_char_not_special [of c] plain_char_host [of c] colon by auto
qed

lemma plain_string_no_special:
  "list_all plain_char s \<Longrightarrow>
   CHR ''%'' \<notin> set s \<and> CHR ''+'' \<notin> set s \<and> CHR '':'' \<notin> set s \<and> CHR ''/'' \<notin> set s
   \<and> CHR ''?'' \<notin> set s \<and> CHR ''#'' \<notin> set s \<and> CHR ''@'' \<notin> set s \<and> CHR ''['' \<notin> set s
   \<and> CHR '']'' \<notin> set s \<and> CHR '','' \<notin> set s \<and> CHR '' '' \<notin> set s"
proof (induction s)
  case Nil
  then show ?case by simp
next
  case (Cons c s)
  then have "plain_char c" by simp
  from plain_char_not_special [OF this] Cons show ?case by auto
qed

lemma digits_plain: "list_all is_digit s \<Longrightarrow> list_all plain_char s"
  by (induction s) (simp_all add: is_digit_plain)

lemma validOptionalPort_digits: "list_all is_digit port \<Longrightarrow> validOptionalPort (CHR '':'' # port)"
  by (induction port) (auto simp: validOptionalPort_def is_digit_def)

lemma not_bracket_prefix:
  "list_all plain_char ip \<Longrightarrow> \<not> strings_HasPrefix (ip @ CHR '':'' # port) ''[''"
proof (cases ip)
  case Nil
  then show ?thesis by (simp add: strings_HasPrefix_def)
next
  case (Cons c cs)
  assume "list_all plain_char ip"
  then have "plain_char c" using Cons by simp
  from plain_char_not_special [OF this] show ?thesis
    using Cons by (auto simp: strings_HasPrefix_def)
qed

lemma parseHost_plain:
  assumes "list_all plain_char ip" "list_all is_digit port"
  shows "parseHost (ip @ CHR '':'' # port) = Some (ip @ CHR '':'' # port)"
proof -
  have nb: "\<not> strings_HasPrefix (ip @ CHR '':'' # port) ''[''"
    by (rule not_bracket_prefix [OF assms(1)])
  have "CHR '':'' \<notin> set port"
    using plain_string_no_special [OF digits_plain [OF assms(2)]] by simp
  then have li: "strings_LastIndex (ip @ CHR '':'' # port) CHR '':'' = Some (length ip)"
    by (rule strings_LastIndex_append)
  have "list_all (\<lambda>c. plain_char c \<or> c = CHR '':'') (ip @ CHR '':'' # port)"
    using assms(1) digits_plain [OF assms(2)] by (auto simp: list_all_iff)
  then have un: "unescape (ip @ CHR '':'' # port) encodeHost = Some (ip @ CHR '':'' # port)"
    by (rule unescape_plain_host)
  show ?thesis
    unfolding parseHost_def using nb li validOptionalPort_digits [OF assms(2)] un by simp
qed

lemma no_escape_chars:
  "CHR ''%'' \<notin> set s \<Longrightarrow> CHR ''+'' \<notin> set s \<Longrightarrow> list_all (\<lambda>c. c \<noteq> CHR ''%'' \<and> c \<noteq> CHR ''+'') s"
  by (induction s) auto

lemma SplitHostPort_plain:
  assumes "list_all plain_char ip" "list_all is_digit port"
  shows "SplitHostPort (ip @ CHR '':'' # port) = Some (ip, port)"
proof -
  have nb: "\<not> strings_HasPrefix (ip @ CHR '':'' # port) ''[''"
    by (rule not_bracket_prefix [OF assms(1)])
  note p = plain_string_no_special [OF digits_plain [OF assms(2)]]
  note i = plain_string_no_special [OF assms(1)]
  have li: "strings_LastIndex (ip @ CHR '':'' # port) CHR '':'' = Some (length ip)"
    using p by (intro strings_LastIndex_append) simp
  show ?thesis
    unfolding SplitHostPort_def using p i nb li by (simp add: Let_def)
qed

lemma strings_Trim_space_id: "CHR '' '' \<notin> set s \<Longrightarrow> strings_Trim_space s = s"
proof -
  assume a: "CHR '' '' \<notin> set s"
  have d: "dropWhile (\<lambda>c. c = CHR '' '') xs = xs" if "CHR '' '' \<notin> set xs" for xs
    using that by (cases xs) auto
  from a show ?thesis by (simp add: strings_Trim_space_def d)
qed

lemma split_locations_plain:
  assumes "list_all plain_char ip" "list_all is_digit port"
  shows "split_locations (strings_Split (ip @ CHR '':'' # port) CHR '','') s = (set_Ip_Port ip port s, None)"
proof -
  note p = plain_string_no_special [OF digits_plain [OF assms(2)]]
  note i = plain_string_no_special [OF assms(1)]
  have sp: "strings_Split (ip @ CHR '':'' # port) CHR '','' = [ip @ CHR '':'' # port]"
    using p i by (intro strings_Split_no_sep) simp
  have tr: "strings_Trim_space (ip @ CHR '':'' # port) = ip @ CHR '':'' # port"
    using p i by (intro strings_Trim_space_id) simp
  have co: "strings_Contains (ip @ CHR '':'' # port) '':''"
    by (simp add: strings_Contains_def sublist_single)
  show ?thesis
    by (simp add: sp tr co SplitHostPort_plain [OF assms] Let_def)
qed

lemma parseAuthority_nouser:
  assumes "list_all plain_char ip" "list_all is_digit port"
  shows "parseAuthority (ip @ CHR '':'' # port) = Some (None, ip @ CHR '':'' # port)"
proof -
  note p = plain_string_no_special [OF digits_plain [OF assms(2)]]
  note i = plain_string_no_special [OF assms(1)]
  have "strings_LastIndex (ip @ CHR '':'' # port) CHR ''@'' = None"
    using p i by (intro strings_LastIndex_none) simp
  then show ?thesis
    by (simp add: parseAuthority_def parseHost_plain [OF assms])
qed

lemma userinfo_char:
  assumes "plain_char c \<or> c = CHR '':''"
  shows "is_alnum c \<or> c \<in> set (''-._:~!$&'' @ [CHR 0x27] @ ''()*+,;=%@'')"
proof (cases "plain_char c")
  case True
  then show ?thesis by (rule plain_char_userinfo)
next
  case False
  with assms have "c = CHR '':''" by simp
  then show ?thesis by simp
qed

lemma validUserinfo_plain:
  "list_all (\<lambda>c. plain_char c \<or> c = CHR '':'') s \<Longrightarrow> validUserinfo s"
  unfolding validUserinfo_def by (erule list.pred_mono_strong) (rule userinfo_char)

lemma strings_Cut_sep: "sep \<notin> set a \<Longrightarrow> strings_Cut (a @ sep # b) sep = (a, b, True)"
  by (simp add: strings_Cut_def takeWhile_sep dropWhile_sep)

lemma strings_Cut_none: "sep \<notin> set a \<Longrightarrow> strings_Cut a sep = (a, [], False)"
  by (induction a) (auto simp: strings_Cut_def)

lemma parseAuthority_user:
  assumes "list_all plain_char user" "list_all plain_char pass"
    "list_all plain_char ip" "list_all is_digit port"
  shows "parseAuthority (user @ CHR '':'' # pass @ CHR ''@'' # ip @ CHR '':'' # port)
     = Some (Some (user, Some pass), ip @ CHR '':'' # port)"
proof -
  note p = plain_string_no_special [OF digits_plain [OF assms(4)]]
  note i = plain_string_no_special [OF assms(3)]
  note u = plain_string_no_special [OF assms(1)]
  note w = plain_string_no_special [OF assms(2)]
  let ?A = "user @ CHR '':'' # pass" and ?H = "ip @ CHR '':'' # port"
  have "CHR ''@'' \<notin> set ?H" using p i by simp
  from strings_LastIndex_append [OF this, of ?A]
  have li: "strings_LastIndex (user @ CHR '':'' # pass @ CHR ''@'' # ip @ CHR '':'' # port) CHR ''@''
      = Some (length ?A)" by simp
  have tk: "take (length ?A) (user @ CHR '':'' # pass @ CHR ''@'' # ip @ CHR '':'' # port) = ?A"
    and dr: "drop (length ?A + 1) (user @ CHR '':'' # pass @ CHR ''@'' # ip @ CHR '':'' # port) = ?H"
    by simp_all
  have vu: "validUserinfo ?A"
    using assms(1,2) by (intro validUserinfo_plain) (auto simp: list_all_iff)
  have co: "strings_Contains ?A '':''" by (simp add: strings_Contains_def sublist_single)
  have cut: "strings_Cut ?A CHR '':'' = (user, pass, True)"
    using u by (intro strings_Cut_sep) simp
  have uu: "unescape user encodeUserPassword = Some user"
    using u by (intro unescape_identity no_escape_chars) simp_all
  have up: "unescape pass encodeUserPassword = Some pass"
    using w by (intro unescape_identity no_escape_chars) simp_all
  show ?thesis
    unfolding parseAuthority_def li
    by (simp only: option.case tk dr
        parseHost_plain [OF assms(3,4)] Let_def vu co cut uu up prod.case not_True_eq_False
        not_False_eq_True if_True if_False)
qed

lemma url_char_facts:
  assumes "url_char c"
  shows "c \<noteq> CHR ''%'' \<and> c \<noteq> CHR ''+'' \<and> c \<noteq> CHR ''?'' \<and> c \<noteq> CHR ''#'' \<and> c \<noteq> CHR '',''
     \<and> c \<noteq> CHR '' '' \<and> \<not> c < CHR 0x20 \<and> c \<noteq> CHR 0x7F"
proof (cases "plain_char c")
  case True
  from plain_char_not_special [OF True] plain_char_not_ctl [OF True] show ?thesis by simp
next
  case False
  with assms consider "c = CHR '':''" | "c = CHR ''/''" | "c = CHR ''@''"
    by (auto simp: url_char_def)
  then show ?thesis by cases (simp_all add: less_char_def)
qed

lemma url_string_facts:
  "list_all url_char s \<Longrightarrow>
   CHR ''%'' \<notin> set s \<and> CHR ''+'' \<notin> set s \<and> CHR ''?'' \<notin> set s \<and> CHR ''#'' \<notin> set s
   \<and> \<not> stringContainsCTLByte s"
proof (induction s)
  case Nil
  then show ?case by (simp add: stringContainsCTLByte_def)
next
  case (Cons c s)
  then have "url_char c" by simp
  from url_char_facts [OF this] Cons show ?case by (auto simp: stringContainsCTLByte_def)
qed

lemma plain_url_chars: "list_all plain_char s \<Longrightarrow> list_all url_char s"
  by (erule list.pred_mono_strong) (simp add: url_char_def)

lemma authority_text_chars:
  assumes "list_all plain_char user" "list_all plain_char pass"
    "list_all plain_char ip" "list_all is_digit port"
  shows "list_all url_char (authority_text user pass ip port)"
    and "CHR ''/'' \<notin> set (authority_text user pass ip port)"
proof -
  note p = plain_string_no_special [OF digits_plain [OF assms(4)]]
  note i = plain_string_no_special [OF assms(3)]
  note u = plain_string_no_special [OF assms(1)]
  note w = plain_string_no_special [OF assms(2)]
  have c: "url_char CHR '':''" "url_char CHR ''@''" by (simp_all add: url_char_def)
  show "list_all url_char (authority_text user pass ip port)"
    using plain_url_chars [OF assms(1)] plain_url_chars [OF assms(2)] plain_url_chars [OF assms(3)]
      plain_url_chars [OF digits_plain [OF assms(4)]] c
    by (simp add: authority_text_def)
  show "CHR ''/'' \<notin> set (authority_text user pass ip port)"
    using p i u w by (simp add: authority_text_def)
qed

lemma parseAuthority_text:
  assumes "list_all plain_char user" "list_all plain_char pass"
    "list_all plain_char ip" "list_all is_digit port"
  shows "parseAuthority (authority_text user pass ip port)
     = Some (authority_user user pass, ip @ CHR '':'' # port)"
proof (cases "length user = 0 \<and> length pass = 0")
  case True
  then show ?thesis
    using parseAuthority_nouser [OF assms(3,4)] by (simp add: authority_text_def authority_user_def)
next
  case False
  then show ?thesis
    using parseAuthority_user [OF assms] by (auto simp: authority_text_def authority_user_def)
qed

lemma path_url_chars:
  assumes "case path of [] \<Rightarrow> True | c # cs \<Rightarrow> c = CHR ''/'' \<and> list_all (\<lambda>c. plain_char c \<or> c = CHR ''/'') cs"
  shows "list_all url_char path"
proof (cases path)
  case Nil
  then show ?thesis by simp
next
  case (Cons c cs)
  with assms have c: "c = CHR ''/''" and cs: "list_all (\<lambda>c. plain_char c \<or> c = CHR ''/'') cs" by simp_all
  have "list_all url_char cs"
    using cs by (rule list.pred_mono_strong) (auto simp: url_char_def)
  with c Cons show ?thesis by (simp add: url_char_def)
qed

lemma setPath_text:
  assumes "list_all url_char path"
  shows "setPath url path = Some (url\<lparr>u_Path := path\<rparr>)"
proof -
  note f = url_string_facts [OF assms]
  have "unescape path encodePath = Some path"
    using f by (intro unescape_identity no_escape_chars) simp_all
  then show ?thesis by (simp add: setPath_def)
qed

lemma parse_authority_path_text:
  assumes "u_Scheme url \<noteq> ''''"
    and "list_all plain_char user" "list_all plain_char pass"
    "list_all plain_char ip" "list_all is_digit port"
    and "case path of [] \<Rightarrow> True | c # cs \<Rightarrow> c = CHR ''/'' \<and> list_all (\<lambda>c. plain_char c \<or> c = CHR ''/'') cs"
  shows "parse_authority_path url (CHR ''/'' # CHR ''/'' # authority_text user pass ip port @ path)
     = Some (url\<lparr>u_User := authority_user user pass, u_Host := ip @ CHR '':'' # port, u_Path := path\<rparr>)"
proof -
  let ?a = "authority_text user pass ip port"
  note ns = authority_text_chars(2) [OF assms(2-5)]
  note pa = parseAuthority_text [OF assms(2-5)]
  note sp = setPath_text [OF path_url_chars [OF assms(6)]]
  have ix: "(case strings_Index (?a @ path) CHR ''/'' of
               None \<Rightarrow> (?a @ path, '''')
             | Some i \<Rightarrow> (take i (?a @ path), drop i (?a @ path))) = (?a, path)"
  proof (cases path)
    case Nil
    then show ?thesis using strings_Index_none [OF ns] by simp
  next
    case (Cons c cs)
    with assms(6) have "c = CHR ''/''" by simp
    with Cons show ?thesis using strings_Index_append [OF ns, of cs] by simp
  qed
  have pre: "strings_HasPrefix (CHR ''/'' # CHR ''/'' # ?a @ path) ''//''"
    by (simp add: strings_HasPrefix_def)
  have dr: "drop 2 (CHR ''/'' # CHR ''/'' # ?a @ path) = ?a @ path" by simp
  show ?thesis
    unfolding parse_authority_path_def
    by (simp only: assms(1) pre dr ix Let_def prod.case pa option.case sp simp_thms if_True)
qed

lemma unescape_append_Some:
  "unescape a mode = Some a' \<Longrightarrow> unescape b mode = Some b' \<Longrightarrow> unescape (a @ b) mode = Some (a' @ b')"
  by (simp add: unescape_append)

lemma QueryUnescape_piece:
  "QueryUnescape (QueryEscape k @ CHR ''='' # QueryEscape v) = Some (k @ CHR ''='' # v)"
proof -
  have e: "unescape ''='' encodeQueryComponent = Some ''=''" by simp
  have k: "unescape (QueryEscape k) encodeQueryComponent = Some k"
    and v: "unescape (QueryEscape v) encodeQueryComponent = Some v"
    using QueryUnescape_QueryEscape by (simp_all add: QueryUnescape_def)
  from unescape_append_Some [OF k unescape_append_Some [OF e v]]
  show ?thesis by (simp add: QueryUnescape_def)
qed

lemma join_amp_Cons: "join_amp (p # ps) = (if ps = [] then p else p @ CHR ''&'' # join_amp ps)"
  by (cases ps) simp_all

lemma QueryUnescape_join_amp:
  "QueryUnescape (join_amp (map (\<lambda>kv. QueryEscape (fst kv) @ CHR ''='' # QueryEscape (snd kv)) ps))
     = Some (join_amp (map (\<lambda>kv. fst kv @ CHR ''='' # snd kv) ps))"
proof (induction ps)
  case Nil
  then show ?case by (simp add: QueryUnescape_def)
next
  case (Cons p ps)
  show ?case
  proof (cases "ps = []")
    case True
    then show ?thesis by (simp add: QueryUnescape_piece)
  next
    case False
    have a: "unescape ''&'' encodeQueryComponent = Some ''&''" by simp
    note p = QueryUnescape_piece [of "fst p" "snd p", unfolded QueryUnescape_def]
    note r = Cons [unfolded QueryUnescape_def]
    from unescape_append_Some [OF p unescape_append_Some [OF a r]] False
    show ?thesis by (simp add: QueryUnescape_def join_amp_Cons)
  qed
qed

lemma raw_piece_chars:
  assumes "list_all key_char k" "list_all value_char v"
  shows "CHR ''#'' \<notin> set (k @ CHR ''='' # v) \<and> \<not> stringContainsCTLByte (k @ CHR ''='' # v)"
proof -
  have v: "CHR ''#'' \<notin> set s \<and> \<not> stringContainsCTLByte s" if "list_all value_char s" for s
    using that by (induction s) (auto simp: value_char_def stringContainsCTLByte_def)
  have "list_all value_char k"
    using assms(1) by (rule list.pred_mono_strong) (simp add: key_char_def)
  from v [OF this] v [OF assms(2)] show ?thesis
    by (simp add: stringContainsCTLByte_def less_char_def)
qed

lemma raw_query_chars:
  assumes "list_all (\<lambda>kv. list_all key_char (fst kv) \<and> list_all value_char (snd kv)) ps"
  shows "CHR ''#'' \<notin> set (join_amp (map (\<lambda>kv. fst kv @ CHR ''='' # snd kv) ps))
     \<and> \<not> stringContainsCTLByte (join_amp (map (\<lambda>kv. fst kv @ CHR ''='' # snd kv) ps))"
  using assms
proof (induction ps)
  case Nil
  then show ?case by (simp add: stringContainsCTLByte_def)
next
  case (Cons p ps)
  then have "list_all key_char (fst p)" "list_all value_char (snd p)" by simp_all
  note a = raw_piece_chars [OF this]
  from Cons have b: "CHR ''#'' \<notin> set (join_amp (map (\<lambda>kv. fst kv @ CHR ''='' # snd kv) ps))
     \<and> \<not> stringContainsCTLByte (join_amp (map (\<lambda>kv. fst kv @ CHR ''='' # snd kv) ps))"
    by simp
  from a b show ?case by (simp add: stringContainsCTLByte_def less_char_def join_amp_Cons)
qed

lemma query_split:
  assumes "CHR ''?'' \<notin> set X"
  shows "(if strings_HasSuffix (X @ CHR ''?'' # raw) ''?'' \<and> count_list (X @ CHR ''?'' # raw) CHR ''?'' = 1
          then (butlast (X @ CHR ''?'' # raw), url\<lparr>u_ForceQuery := True\<rparr>)
          else (case strings_Cut (X @ CHR ''?'' # raw) CHR ''?'' of
                  (before, after, _) \<Rightarrow> (before, url\<lparr>u_RawQuery := after\<rparr>)))
     = (X, if raw = [] then url\<lparr>u_ForceQuery := True\<rparr> else url\<lparr>u_RawQuery := raw\<rparr>)"
proof (cases "raw = []")
  case True
  have "count_list X CHR ''?'' = 0" using assms by (simp add: count_list_0_iff)
  with True show ?thesis by (simp add: strings_HasSuffix_def butlast_append)
next
  case False
  have c0: "count_list X CHR ''?'' = 0" using assms by (simp add: count_list_0_iff)
  have n: "\<not> (strings_HasSuffix (X @ CHR ''?'' # raw) ''?'' \<and> count_list (X @ CHR ''?'' # raw) CHR ''?'' = 1)"
  proof
    assume a: "strings_HasSuffix (X @ CHR ''?'' # raw) ''?'' \<and> count_list (X @ CHR ''?'' # raw) CHR ''?'' = 1"
    then obtain zs where z: "X @ CHR ''?'' # raw = zs @ ''?''"
      by (auto simp: strings_HasSuffix_def suffix_def)
    have "last (X @ CHR ''?'' # raw) = last (zs @ ''?'')" by (simp only: z)
    with False have "last raw = CHR ''?''" by simp
    with False have "CHR ''?'' \<in> set raw" using last_in_set by metis
    then have "count_list raw CHR ''?'' \<noteq> 0" by (simp add: count_list_0_iff)
    with a c0 show False by simp
  qed
  from False show ?thesis unfolding if_not_P [OF n] by (simp add: strings_Cut_sep [OF assms])
qed

lemma url_parse_steps:
  assumes "\<not> stringContainsCTLByte t" "t \<noteq> ''*''" "getScheme t = Some (scheme, rest)"
    "strings_ToLower scheme = scheme" "rest = X @ CHR ''?'' # raw" "CHR ''?'' \<notin> set X"
    "strings_HasPrefix X ''/''"
  shows "url_parse t =
     parse_authority_path
       (if raw = [] then url_URL_zero\<lparr>u_Scheme := scheme, u_ForceQuery := True\<rparr>
        else url_URL_zero\<lparr>u_Scheme := scheme, u_RawQuery := raw\<rparr>) X"
proof -
  note qs = query_split [OF assms(6), of raw "url_URL_zero\<lparr>u_Scheme := scheme\<rparr>"]
  show ?thesis
    unfolding url_parse_def
    by (simp only: assms(1-4) if_False option.case prod.case Let_def)
       (simp only: assms(5) qs prod.case assms(7) not_True_eq_False if_False)
qed

lemma url_parse_text:
  assumes "is_lower c" "list_all scheme_char cs"
    and "list_all plain_char user" "list_all plain_char pass"
    "list_all plain_char ip" "list_all is_digit port"
    and "case path of [] \<Rightarrow> True | c # cs \<Rightarrow> c = CHR ''/'' \<and> list_all (\<lambda>c. plain_char c \<or> c = CHR ''/'') cs"
    and "\<not> stringContainsCTLByte raw"
  shows "url_parse (c # cs @ CHR '':'' # CHR ''/'' # CHR ''/'' # authority_text user pass ip port @ path @ CHR ''?'' # raw)
     = Some ((if raw = [] then url_URL_zero\<lparr>u_Scheme := c # cs, u_ForceQuery := True\<rparr>
              else url_URL_zero\<lparr>u_Scheme := c # cs, u_RawQuery := raw\<rparr>)
             \<lparr>u_User := authority_user user pass, u_Host := ip @ CHR '':'' # port, u_Path := path\<rparr>)"
proof -
  let ?a = "authority_text user pass ip port"
  let ?X = "CHR ''/'' # CHR ''/'' # ?a @ path"
  let ?t = "c # cs @ CHR '':'' # CHR ''/'' # CHR ''/'' # ?a @ path @ CHR ''?'' # raw"
  let ?u = "if raw = [] then url_URL_zero\<lparr>u_Scheme := c # cs, u_ForceQuery := True\<rparr>
        else url_URL_zero\<lparr>u_Scheme := c # cs, u_RawQuery := raw\<rparr>"
  have sc: "scheme_char c" using assms(1) by (simp add: scheme_char_def)
  have "list_all plain_char cs"
    using assms(2) by (rule list.pred_mono_strong) (rule scheme_char_plain)
  with sc have "list_all plain_char (c # cs)" by (simp add: scheme_char_plain)
  then have pc: "list_all url_char (c # cs)" by (rule plain_url_chars)
  have xc: "list_all url_char ?X"
    using authority_text_chars(1) [OF assms(3-6)] path_url_chars [OF assms(7)]
    by (simp add: url_char_def)
  note xf = url_string_facts [OF xc]
  note pf = url_string_facts [OF pc]
  have ctl: "\<not> stringContainsCTLByte ?t"
    using xf pf assms(8) by (simp add: stringContainsCTLByte_def less_char_def)
  have star: "?t \<noteq> ''*''" by simp
  have gs: "getScheme ?t = Some (c # cs, CHR ''/'' # CHR ''/'' # ?a @ path @ CHR ''?'' # raw)"
    using getScheme_scheme [OF assms(1,2)] by simp
  have tl: "strings_ToLower (c # cs) = c # cs"
    using sc assms(2) by (intro strings_ToLower_scheme) simp
  have r: "CHR ''/'' # CHR ''/'' # ?a @ path @ CHR ''?'' # raw = ?X @ CHR ''?'' # raw" by simp
  have q: "CHR ''?'' \<notin> set ?X" using xf by simp
  have pre: "strings_HasPrefix ?X ''/''" by (simp add: strings_HasPrefix_def)
  have s: "u_Scheme ?u \<noteq> ''''" by simp
  have "url_parse ?t = parse_authority_path ?u ?X"
    by (rule url_parse_steps [OF ctl star gs tl r q pre])
  also have "\<dots> = Some (?u\<lparr>u_User := authority_user user pass, u_Host := ip @ CHR '':'' # port, u_Path := path\<rparr>)"
    by (rule parse_authority_path_text [OF s assms(3-7)])
  finally show ?thesis .
qed

lemma url_Parse_text:
  assumes "is_lower c" "list_all scheme_char cs"
    and "list_all plain_char user" "list_all plain_char pass"
    "list_all plain_char ip" "list_all is_digit port"
    and "case path of [] \<Rightarrow> True | c # cs \<Rightarrow> c = CHR ''/'' \<and> list_all (\<lambda>c. plain_char c \<or> c = CHR ''/'') cs"
    and "\<not> stringContainsCTLByte raw" "CHR ''#'' \<notin> set raw"
  shows "url_Parse (c # cs @ CHR '':'' # CHR ''/'' # CHR ''/'' # authority_text user pass ip port @ path @ CHR ''?'' # raw)
     = Some ((if raw = [] then url_URL_zero\<lparr>u_Scheme := c # cs, u_ForceQuery := True\<rparr>
              else url_URL_zero\<lparr>u_Scheme := c # cs, u_RawQuery := raw\<rparr>)
             \<lparr>u_User := authority_user user pass, u_Host := ip @ CHR '':'' # port, u_Path := path\<rparr>)"
proof -
  let ?a = "authority_text user pass ip port"
  let ?t = "c # cs @ CHR '':'' # CHR ''/'' # CHR ''/'' # ?a @ path @ CHR ''?'' # raw"
  have sc: "scheme_char c" using assms(1) by (simp add: scheme_char_def)
  have "list_all plain_char cs"
    using assms(2) by (rule list.pred_mono_strong) (rule scheme_char_plain)
  with sc have "list_all plain_char (c # cs)" by (simp add: scheme_char_plain)
  then have pc: "list_all url_char (c # cs)" by (rule plain_url_chars)
  have xc: "list_all url_char (CHR ''/'' # CHR ''/'' # ?a @ path)"
    using authority_text_chars(1) [OF assms(3-6)] path_url_chars [OF assms(7)]
    by (simp add: url_char_def)
  note xf = url_string_facts [OF xc]
  note pf = url_string_facts [OF pc]
  have "CHR ''#'' \<notin> set ?t" using xf pf assms(9) by simp
  from strings_Cut_none [OF this] have cut: "strings_Cut ?t CHR ''#'' = (?t, [], False)" .
  note up = url_parse_text [OF assms(1-8)]
  show ?thesis
    unfolding url_Parse_def by (simp only: cut prod.case up option.case if_True refl)
qed

lemma NewURL_parsed:
  assumes "urlString \<noteq> ''''" "QueryUnescape urlString = Some raw" "strings_Contains raw ''//''"
    "url_Parse raw = Some su" "ParseQuery (u_RawQuery su) = (ps, False)"
    "u_Host su = ip @ CHR '':'' # port" "list_all plain_char ip" "list_all is_digit port"
  shows "snd (NewURL urlString []) = None
     \<and> Protocol (fst (NewURL urlString [])) = u_Scheme su
     \<and> Username (fst (NewURL urlString [])) = Userinfo_Username (u_User su)
     \<and> Password (fst (NewURL urlString [])) = Userinfo_Password (u_User su)
     \<and> Ip (fst (NewURL urlString [])) = ip
     \<and> Port (fst (NewURL urlString [])) = port
     \<and> Path (fst (NewURL urlString [])) = u_Path su
     \<and> params (fst (NewURL urlString [])) = ps"
proof -
  note sl = split_locations_plain [OF assms(7,8)]
  show ?thesis
    unfolding NewURL_def
    by (simp add: assms(1-6) sl Let_def set_params_def set_PrimitiveURL_def set_Protocol_def
        set_User_def set_Location_def set_Path_def set_Ip_Port_def)
qed

lemma URL_String_text:
  "URL_String u = Protocol u @ CHR '':'' # CHR ''/'' # CHR ''/'' #
     authority_text (Username u) (Password u) (Ip u) (Port u) @ Path u @ CHR ''?'' # Values_Encode (params u)"
  by (simp add: URL_String_def authority_text_def Let_def)

lemma authority_user_name: "Userinfo_Username (authority_user user pass) = user"
  and authority_user_password: "Userinfo_Password (authority_user user pass) = pass"
  by (auto simp: authority_user_def Userinfo_Username_def Userinfo_Password_def)

lemma Values_Encode_reparse:
  assumes "distinct (map fst m)"
  shows "Values_Encode (foldl (\<lambda>m kv. Values_Add m (fst kv) (snd kv)) [] (query_pairs m)) = Values_Encode m"
  by (simp only: Values_Encode_pairs query_pairs_reparse [OF assms])

lemma NewURL_URL_String:
  assumes "round_trip_safe u"
  shows "snd (NewURL (URL_String u) []) = None
     \<and> URL_String (fst (NewURL (URL_String u) [])) = URL_String u"
proof -
  let ?a = "authority_text (Username u) (Password u) (Ip u) (Port u)"
  let ?ps = "query_pairs (params u)"
  let ?enc = "join_amp (map (\<lambda>kv. QueryEscape (fst kv) @ CHR ''='' # QueryEscape (snd kv)) ?ps)"
  let ?raw = "join_amp (map (\<lambda>kv. fst kv @ CHR ''='' # snd kv) ?ps)"
  let ?m = "foldl (\<lambda>m kv. Values_Add m (fst kv) (snd kv)) [] ?ps"
  from assms obtain c cs where pr: "Protocol u = c # cs" and lc: "is_lower c"
    and sc: "list_all scheme_char cs"
    by (cases "Protocol u") (simp_all add: round_trip_safe_def)
  from assms have us: "list_all plain_char (Username u)" and pw: "list_all plain_char (Password u)"
    and ip: "list_all plain_char (Ip u)" and po: "list_all is_digit (Port u)"
    and pa: "case Path u of [] \<Rightarrow> True
          | c # cs \<Rightarrow> c = CHR ''/'' \<and> list_all (\<lambda>c. plain_char c \<or> c = CHR ''/'') cs"
    and di: "distinct (map fst (params u))"
    and ch: "list_all (\<lambda>kv. list_all key_char (fst kv) \<and> list_all (list_all value_char) (snd kv))
           (params u)"
    by (simp_all add: round_trip_safe_def)
  let ?P = "c # cs @ CHR '':'' # CHR ''/'' # CHR ''/'' # ?a @ Path u"
  have t: "URL_String u = ?P @ CHR ''?'' # ?enc"
    by (simp add: URL_String_text pr Values_Encode_pairs)
  note pchars = query_pairs_chars [OF ch]
  note rq = raw_query_chars [OF pchars]
  have scc: "scheme_char c" using lc by (simp add: scheme_char_def)
  have "list_all plain_char cs"
    using sc by (rule list.pred_mono_strong) (rule scheme_char_plain)
  with scc have "list_all plain_char (c # cs)" by (simp add: scheme_char_plain)
  then have pc: "list_all url_char (c # cs)" by (rule plain_url_chars)
  have Pc: "list_all url_char ?P"
    using pc authority_text_chars(1) [OF us pw ip po] path_url_chars [OF pa]
    by (simp add: url_char_def)
  note Pf = url_string_facts [OF Pc]
  have uP: "unescape ?P encodeQueryComponent = Some ?P"
    using Pf by (intro unescape_identity no_escape_chars) simp_all
  have uq: "unescape ''?'' encodeQueryComponent = Some ''?''" by simp
  note ue = QueryUnescape_join_amp [of ?ps, unfolded QueryUnescape_def]
  have "unescape (?P @ ''?'' @ ?enc) encodeQueryComponent = Some (?P @ ''?'' @ ?raw)"
    by (rule unescape_append_Some [OF uP unescape_append_Some [OF uq ue]])
  then have qu: "QueryUnescape (URL_String u) = Some (?P @ CHR ''?'' # ?raw)"
    by (simp add: QueryUnescape_def t)
  have "sublist ''//'' ((c # cs @ '':'') @ ''//'' @ (?a @ Path u @ CHR ''?'' # ?raw))"
    by (rule sublist_appendI)
  then have co: "strings_Contains (?P @ CHR ''?'' # ?raw) ''//''"
    by (simp add: strings_Contains_def)
  let ?su = "(if ?raw = [] then url_URL_zero\<lparr>u_Scheme := c # cs, u_ForceQuery := True\<rparr>
              else url_URL_zero\<lparr>u_Scheme := c # cs, u_RawQuery := ?raw\<rparr>)
             \<lparr>u_User := authority_user (Username u) (Password u),
               u_Host := Ip u @ CHR '':'' # Port u, u_Path := Path u\<rparr>"
  have "url_Parse (c # cs @ CHR '':'' # CHR ''/'' # CHR ''/'' # ?a @ Path u @ CHR ''?'' # ?raw) = Some ?su"
    using rq by (intro url_Parse_text [OF lc sc us pw ip po pa]) simp_all
  then have up: "url_Parse (?P @ CHR ''?'' # ?raw) = Some ?su" by simp
  have rqy: "u_RawQuery ?su = ?raw" by (simp add: url_URL_zero_def)
  have pq: "ParseQuery (u_RawQuery ?su) = (?m, False)"
    unfolding rqy by (rule ParseQuery_join_amp [OF pchars])
  have ne: "URL_String u \<noteq> ''''" by (simp add: t)
  have ho: "u_Host ?su = Ip u @ CHR '':'' # Port u" by simp
  note f = NewURL_parsed [OF ne qu co up pq ho ip po]
  have sch: "u_Scheme ?su = Protocol u" by (simp add: pr)
  have usr: "u_User ?su = authority_user (Username u) (Password u)" by simp
  have pth: "u_Path ?su = Path u" by simp
  from f have e: "snd (NewURL (URL_String u) []) = None" by (rule conjunct1)
  from f have fields: "Protocol (fst (NewURL (URL_String u) [])) = Protocol u"
    "Username (fst (NewURL (URL_String u) [])) = Username u"
    "Password (fst (NewURL (URL_String u) [])) = Password u"
    "Ip (fst (NewURL (URL_String u) [])) = Ip u"
    "Port (fst (NewURL (URL_String u) [])) = Port u"
    "Path (fst (NewURL (URL_String u) [])) = Path u"
    "params (fst (NewURL (URL_String u) [])) = ?m"
    unfolding sch usr pth authority_user_name authority_user_password by blast+
  have "URL_String (fst (NewURL (URL_String u) [])) = URL_String u"
    unfolding URL_String_def [of "fst (NewURL (URL_String u) [])"] fields
      Values_Encode_reparse [OF di]
    by (simp only: URL_String_def [of u])
  with e show ?thesis by (rule conjI)
qed

text \<open>
  C8 (as stated). The claim that \<open>NewURL(NewURL(s).String()).String()\<close> equals
  \<open>NewURL(s).String()\<close> for every well-formed \<open>s\<close> is false: \<open>dubbo://[::1]:20000/p\<close> is
  parsed without error, \<open>String\<close> writes the host without its brackets, and parsing
  \<open>dubbo://::1:20000/p?\<close> again fails in \<open>SplitHostPort\<close> and is formatted as
  \<open>dubbo://:/p?\<close>.
\<close>

theorem URL_round_trip_counterexample:
  "snd (NewURL ''dubbo://[::1]:20000/p'' []) = None
   \<and> URL_String (fst (NewURL ''dubbo://[::1]:20000/p'' [])) = ''dubbo://::1:20000/p?''
   \<and> snd (NewURL (URL_String (fst (NewURL ''dubbo://[::1]:20000/p'' []))) []) = Some SplitHostPortError
   \<and> URL_String (fst (NewURL (URL_String (fst (NewURL ''dubbo://[::1]:20000/p'' []))) [])) = ''dubbo://:/p?''
   \<and> URL_String (fst (NewURL (URL_String (fst (NewURL ''dubbo://[::1]:20000/p'' []))) []))
       \<noteq> URL_String (fst (NewURL ''dubbo://[::1]:20000/p'' []))"
  by code_simp

text \<open>
  C8 (amended). For every string \<open>s\<close> that \<open>NewURL\<close> parses without error into a URL whose
  protocol is a lower-case scheme without \<open>+\<close>, whose user name, password and host are made
  of unreserved characters, whose port is made of digits, whose path is empty or starts
  with a slash and is made of unreserved characters and slashes, and whose parameters have
  no key twice and no \<open>&\<close>, \<open>;\<close>, \<open>%\<close>, \<open>+\<close>, \<open>#\<close> or control byte in a key or a value and no
  \<open>=\<close> in a key: parsing \<open>NewURL(s).String()\<close> returns no error, and formatting the result
  gives \<open>NewURL(s).String()\<close> again.
\<close>

theorem URL_round_trip:
  assumes "snd (NewURL s []) = None" and "round_trip_safe (fst (NewURL s []))"
  shows "snd (NewURL (URL_String (fst (NewURL s []))) []) = None
     \<and> URL_String (fst (NewURL (URL_String (fst (NewURL s []))) [])) = URL_String (fst (NewURL s []))"
  using assms(2) by (rule NewURL_URL_String)

theorem URL_round_trip_witness:
  "snd (NewURL (URL_String (fst (NewURL ''dubbo://u:p@127.0.0.1:20000/com.foo.Bar?version=1.0&group=a%20b'' []))) []) = None
   \<and> URL_String (fst (NewURL (URL_String (fst (NewURL ''dubbo://u:p@127.0.0.1:20000/com.foo.Bar?version=1.0&group=a%20b'' []))) []))
       = ''dubbo://u:p@127.0.0.1:20000/com.foo.Bar?group=a+b&version=1.0''"
proof -
  let ?s = "''dubbo://u:p@127.0.0.1:20000/com.foo.Bar?version=1.0&group=a%20b''"
  have a: "snd (NewURL ?s []) = None" by code_simp
  have b: "round_trip_safe (fst (NewURL ?s []))" by code_simp
  have c: "URL_String (fst (NewURL ?s [])) = ''dubbo://u:p@127.0.0.1:20000/com.foo.Bar?group=a+b&version=1.0''"
    by code_simp
  from URL_round_trip [OF a b] show ?thesis unfolding c .
qed



section \<open>Properties of the service discovery\<close>

subsection \<open>Translation of the records of the naming service\<close>

lemma foldl_snoc_map: "foldl (\<lambda>res x. res @ [f x]) acc xs = acc @ map f xs"
  by (induction xs arbitrary: acc) simp_all

lemma GetInstances_map:
  "GetInstances fl n s =
     (case n_SelectAllInstances n s (n_group n) of None \<Rightarrow> []
      | Some instances \<Rightarrow> map (GetInstances_translate fl n s) instances)"
  by (simp add: GetInstances_def foldl_snoc_map split: option.splits)

lemma SubscribeCallback_instances_map:
  "SubscribeCallback_instances fl n s services = map (SubscribeCallback_translate fl n s) services"
  by (simp add: SubscribeCallback_instances_def foldl_snoc_map)

text \<open>
  C10. The callback of a subscription translates every record into an instance whose
  \<open>Healthy\<close> field is true, whatever the record says (the \<open>Enable\<close> flag is copied), while
  \<open>GetInstances\<close> copies both flags of every record.
\<close>

theorem callback_healthy_constant:
  "map d_Healthy (SubscribeCallback_instances fl n s services) = replicate (length services) True
   \<and> map d_Enable (SubscribeCallback_instances fl n s services) = map ins_Enable services
   \<and> (n_SelectAllInstances n s (n_group n) = Some services \<longrightarrow>
        map d_Healthy (GetInstances fl n s) = map ins_Healthy services
      \<and> map d_Enable (GetInstances fl n s) = map ins_Enable services)"
  by (simp add: SubscribeCallback_instances_map GetInstances_map
      SubscribeCallback_translate_def GetInstances_translate_def Let_def map_replicate_const comp_def)

theorem callback_healthy_constant_witness:
  "map d_Healthy (SubscribeCallback_instances example_float64 (example_discovery []) ''svc''
      [example_record ''10.0.0.1'' True, example_record ''10.0.0.2'' False]) = [True, True]
   \<and> map d_Healthy (GetInstances example_float64 (example_discovery []) ''svc'') = [True, False, True]"
proof -
  let ?rs = "[example_record ''10.0.0.1'' True, example_record ''10.0.0.2'' False,
              example_record ''10.0.0.3'' True]"
  have h: "n_SelectAllInstances (example_discovery []) ''svc'' (n_group (example_discovery [])) = Some ?rs"
    by (simp add: example_discovery_def)
  have a: "map d_Healthy (SubscribeCallback_instances example_float64 (example_discovery []) ''svc''
      [example_record ''10.0.0.1'' True, example_record ''10.0.0.2'' False]) = [True, True]"
    using callback_healthy_constant [of example_float64 "example_discovery []" "''svc''"
        "[example_record ''10.0.0.1'' True, example_record ''10.0.0.2'' False]"]
    by simp
  have b: "map d_Healthy (GetInstances example_float64 (example_discovery []) ''svc'') = [True, False, True]"
    using h callback_healthy_constant [of example_float64 "example_discovery []" "''svc''" ?rs]
    by (simp add: example_record_def)
  from a b show ?thesis by simp
qed

subsection \<open>Pagination\<close>

lemma page_loop_slice:
  "0 \<le> i \<Longrightarrow> page_loop all i bound res = Inr (res @ drop (nat i) (take (nat bound) all))"
proof (induction all i bound res rule: page_loop.induct)
  case (1 all i bound res)
  show ?case
  proof (cases "i < int (length all) \<and> i < bound")
    case True
    then have lt: "nat i < length (take (nat bound) all)" using 1(2) by auto
    have "page_loop all i bound res = page_loop all (i + 1) bound (res @ [all ! nat i])"
      using True 1(2) by (subst page_loop.simps) simp
    also have "\<dots> = Inr ((res @ [all ! nat i]) @ drop (nat (i + 1)) (take (nat bound) all))"
      using 1(1) True 1(2) by simp
    finally have step: "page_loop all i bound res =
        Inr ((res @ [all ! nat i]) @ drop (nat (i + 1)) (take (nat bound) all))" .
    have "nat (i + 1) = Suc (nat i)" using 1(2) by simp
    moreover have "take (nat bound) all ! nat i = all ! nat i" using True 1(2) by simp
    ultimately have "drop (nat i) (take (nat bound) all)
        = all ! nat i # drop (nat (i + 1)) (take (nat bound) all)"
      using Cons_nth_drop_Suc [OF lt] by simp
    with step show ?thesis by simp
  next
    case False
    then have "drop (nat i) (take (nat bound) all) = []" using 1(2) by auto
    moreover have "page_loop all i bound res = Inr res"
      using False by (subst page_loop.simps) auto
    ultimately show ?thesis by simp
  qed
qed

lemma int_wrap_id: "- (2 ^ 63) \<le> x \<Longrightarrow> x < 2 ^ 63 \<Longrightarrow> int_wrap x = x"
  unfolding int_wrap_def by (simp add: sint_sbintrunc' signed_take_bit_int_eq_self)

lemma makeslice_granted:
  assumes "0 \<le> cap" "elemsize * cap \<le> rt_maxAlloc rt" "elemsize * cap \<le> rt_memory rt"
  shows "makeslice rt elemsize cap = Inr []"
  using assms by (simp add: makeslice_def)

lemma NewPage_data:
  assumes "pageSize \<noteq> 0"
  shows "\<exists>page. NewPage offset pageSize data tot = Inr page \<and> pg_Data page = data
           \<and> pg_Offset page = offset \<and> pg_PageSize page = pageSize \<and> pg_TotalSize page = tot"
  using assms by (simp add: NewPage_def Let_def)

lemma GetInstancesByPage_slice:
  assumes "0 \<le> offset" "offset + pageSize < 2 ^ 63" "0 < pageSize"
    and "any_size * pageSize \<le> rt_maxAlloc rt" "any_size * pageSize \<le> rt_memory rt"
  shows "\<exists>page. GetInstancesByPage rt fl n s offset pageSize = Inr page
           \<and> pg_Data page = take (nat pageSize) (drop (nat offset) (GetInstances fl n s))"
proof -
  have w: "int_wrap (offset + pageSize) = offset + pageSize"
    using assms(1-3) by (intro int_wrap_id) auto
  have m: "makeslice rt any_size pageSize = (Inr [] :: panic + DefaultServiceInstance list)"
    using assms(3-5) by (intro makeslice_granted) auto
  have "nat (offset + pageSize) = nat offset + nat pageSize"
    using assms(1,3) by (simp add: nat_add_distrib)
  then have d: "drop (nat offset) (take (nat (offset + pageSize)) (GetInstances fl n s))
     = take (nat pageSize) (drop (nat offset) (GetInstances fl n s))"
    by (simp add: drop_take)
  have ne: "pageSize \<noteq> 0" using assms(3) by simp
  have "GetInstancesByPage rt fl n s offset pageSize
     = NewPage offset pageSize (take (nat pageSize) (drop (nat offset) (GetInstances fl n s)))
         (int (length (GetInstances fl n s)))"
    using assms(1) by (simp add: GetInstancesByPage_def Let_def w m page_loop_slice d)
  with NewPage_data [OF ne] show ?thesis by metis
qed

lemma read_all_pages_from:
  assumes "0 < pageSize" "int (length (GetInstances fl n s)) < 2 ^ 62"
    and "any_size * pageSize \<le> rt_maxAlloc rt" "any_size * pageSize \<le> rt_memory rt"
  shows "0 \<le> offset \<Longrightarrow> offset + pageSize < 2 ^ 63 \<Longrightarrow>
     \<exists>fuel. read_all_pages fuel rt fl n s offset pageSize =
        Some (Inr (drop (nat offset) (GetInstances fl n s)))"
proof (induction "length (GetInstances fl n s) - nat offset" arbitrary: offset rule: less_induct)
  case less
  let ?all = "GetInstances fl n s"
  let ?page = "take (nat pageSize) (drop (nat offset) ?all)"
  from GetInstancesByPage_slice [OF less.prems(1,2) assms(1,3,4), of fl n s]
  obtain page where pg: "GetInstancesByPage rt fl n s offset pageSize = Inr page"
    and pd: "pg_Data page = ?page" by blast
  show ?case
  proof (cases "int (length ?page) < pageSize")
    case True
    then have "?page = drop (nat offset) ?all" by auto
    then have "read_all_pages (Suc 0) rt fl n s offset pageSize = Some (Inr (drop (nat offset) ?all))"
      using True pg pd by simp
    then show ?thesis by blast
  next
    case False
    then have full: "nat pageSize \<le> length ?all - nat offset" by auto
    then have le: "offset + pageSize \<le> int (length ?all)" using less.prems assms(1) by linarith
    have "pageSize \<le> int (length ?all)" using le less.prems by linarith
    then have rng: "(offset + pageSize) + pageSize < 2 ^ 63" using le assms(2) by simp
    have dec: "length ?all - nat (offset + pageSize) < length ?all - nat offset"
      using full assms(1) less.prems by linarith
    from less.hyps [OF dec _ rng] obtain fuel where
      f: "read_all_pages fuel rt fl n s (offset + pageSize) pageSize =
            Some (Inr (drop (nat (offset + pageSize)) ?all))"
      using less.prems assms(1) by auto
    have "nat (offset + pageSize) = nat pageSize + nat offset"
      using less.prems assms(1) by (simp add: nat_add_distrib)
    then have "?page @ drop (nat (offset + pageSize)) ?all = drop (nat offset) ?all"
      by (metis append_take_drop_id drop_drop)
    then have "read_all_pages (Suc fuel) rt fl n s offset pageSize = Some (Inr (drop (nat offset) ?all))"
      using False pg pd f by simp
    then show ?thesis by blast
  qed
qed

text \<open>
  C7 (as stated). The claim that the reading succeeds for every page size \<open>n > 0\<close> is
  false: both paging functions begin with \<open>make([]any, 0, pageSize)\<close>, and for the page
  size \<open>2^62\<close> the block of \<open>2^66\<close> bytes exceeds \<open>maxAlloc\<close>, so that the first call panics
  with \<open>makeslice: cap out of range\<close> although \<open>GetInstances\<close> returns three instances.
\<close>

theorem pagination_page_size_counterexample:
  "GetInstancesByPage example_runtime example_float64 (example_discovery []) ''svc'' 0 (2 ^ 62)
     = Inl MakeSliceCapOutOfRange
   \<and> read_all_pages 1 example_runtime example_float64 (example_discovery []) ''svc'' 0 (2 ^ 62)
     = Some (Inl MakeSliceCapOutOfRange)
   \<and> length (GetInstances example_float64 (example_discovery []) ''svc'') = 3"
proof -
  have l: "length (GetInstances example_float64 (example_discovery []) ''svc'') = 3"
    by (simp add: GetInstances_map example_discovery_def)
  have m: "makeslice example_runtime any_size (2 ^ 62)
     = (Inl MakeSliceCapOutOfRange :: panic + DefaultServiceInstance list)"
    by (simp add: makeslice_def example_runtime_def any_size_def)
  have g: "GetInstancesByPage example_runtime example_float64 (example_discovery []) ''svc'' 0 (2 ^ 62)
     = Inl MakeSliceCapOutOfRange"
    unfolding GetInstancesByPage_def Let_def m by simp
  have "read_all_pages (Suc 0) example_runtime example_float64 (example_discovery []) ''svc'' 0 (2 ^ 62)
     = Some (Inl MakeSliceCapOutOfRange)"
    unfolding read_all_pages.simps g by simp
  with g l show ?thesis by simp
qed

text \<open>
  C7 (amended). For a page size \<open>n > 0\<close> for which the runtime grants the slice of
  capacity \<open>n\<close> (its \<open>16 n\<close> bytes are at most \<open>maxAlloc\<close> and at most the memory that the
  allocator obtains), reading the pages at the offsets \<open>0\<close>, \<open>n\<close>, \<open>2n\<close>, ... until a page
  holds fewer than \<open>n\<close> items ends, without a panic, and the concatenated pages are the
  list that \<open>GetInstances\<close> returns: the same multiset, nothing dropped and nothing twice.
  The page size is a value of the Go type \<open>int\<close>, and the list is shorter than \<open>2^62\<close>, so
  that no offset of the reading overflows.
\<close>

theorem pagination_totality:
  assumes "0 < pageSize" "pageSize < 2 ^ 63"
    and "any_size * pageSize \<le> rt_maxAlloc rt" "any_size * pageSize \<le> rt_memory rt"
    and "int (length (GetInstances fl n s)) < 2 ^ 62"
  shows "\<exists>fuel pages. read_all_pages fuel rt fl n s 0 pageSize = Some (Inr pages)
           \<and> pages = GetInstances fl n s \<and> mset pages = mset (GetInstances fl n s)"
  using read_all_pages_from [OF assms(1) assms(5) assms(3) assms(4), of 0] assms(2) by auto

theorem pagination_totality_witness:
  "(0::int) < 2 \<and> (2::int) < 2 ^ 63
   \<and> any_size * 2 \<le> rt_maxAlloc example_runtime \<and> any_size * 2 \<le> rt_memory example_runtime
   \<and> length (GetInstances example_float64 (example_discovery []) ''svc'') = 3
   \<and> (\<exists>fuel pages. read_all_pages fuel example_runtime example_float64 (example_discovery []) ''svc'' 0 2
          = Some (Inr pages)
        \<and> pages = GetInstances example_float64 (example_discovery []) ''svc''
        \<and> mset pages = mset (GetInstances example_float64 (example_discovery []) ''svc''))"
proof -
  have l: "length (GetInstances example_float64 (example_discovery []) ''svc'') = 3"
    by (simp add: GetInstances_map example_discovery_def)
  then have h: "int (length (GetInstances example_float64 (example_discovery []) ''svc'')) < 2 ^ 62"
    by simp
  have a: "any_size * 2 \<le> rt_maxAlloc example_runtime" "any_size * 2 \<le> rt_memory example_runtime"
    by (simp_all add: any_size_def example_runtime_def)
  show ?thesis
    using l a pagination_totality [of 2 example_runtime example_float64 "example_discovery []" "''svc''",
        OF _ _ a h]
    by simp
qed

subsection \<open>The registered weight\<close>




section \<open>Properties of the reference configuration\<close>

subsection \<open>The mesh URL\<close>

lemma Itoa_80: "Itoa 80 = ''80''"
  by (simp add: Itoa_def FormatUint.simps [of 80] FormatUint.simps [of 8])

text \<open>
  C5. With mesh mode enabled, the protocol equal to \<open>TRIPLE\<close> and a non-empty
  \<open>provided_by\<close>, the rewritten URL is \<open>tri://\<close>, \<open>provided_by\<close>, a dot, the value of
  \<open>POD_NAMESPACE\<close> (or \<open>default\<close> when it is not set), \<open>.svc.\<close>, the value of
  \<open>CLUSTER_DOMAIN\<close> (or \<open>cluster.local\<close>), a colon, and the decimal \<open>MeshProviderPort\<close> when it
  is positive, else the built-in mesh port.
\<close>

theorem mesh_url:
  assumes "root_Consumer (rc_rootConfig rc) = Some consumer" "cons_MeshEnabled consumer"
    "rc_Protocol rc = TRIPLE K" "rc_ProvidedBy rc \<noteq> ''''"
  shows "\<exists>rc'. updateOrCreateMeshURL K E rc = Inr rc' \<and>
     rc_URL rc' = ''tri://'' @ rc_ProvidedBy rc @ ''.''
        @ (case ext_LookupEnv E ''POD_NAMESPACE'' of Some v \<Rightarrow> v | None \<Rightarrow> ''default'')
        @ ''.svc.''
        @ (case ext_LookupEnv E ''CLUSTER_DOMAIN'' of Some v \<Rightarrow> v | None \<Rightarrow> ''cluster.local'')
        @ '':'' @ Itoa (if rc_MeshProviderPort rc > 0 then rc_MeshProviderPort rc else DefaultMeshPort K)"
  using assms
  by (simp add: updateOrCreateMeshURL_def getEnv_def Let_def PodNamespaceEnvKey_def DefaultNamespace_def
      ClusterDomainKey_def DefaultClusterDomain_def SVC_def split: option.splits)

theorem mesh_url_witness:
  "\<exists>rc'. updateOrCreateMeshURL example_constants (example_extensions [(''POD_NAMESPACE'', ''ns1'')])
       (example_reference True '''' ''tri'' ''svc-a'' ''failover'') = Inr rc'
     \<and> rc_URL rc' = ''tri://svc-a.ns1.svc.cluster.local:80''"
proof -
  let ?rc = "example_reference True '''' ''tri'' ''svc-a'' ''failover''"
  have h: "root_Consumer (rc_rootConfig ?rc) = Some \<lparr>cons_MeshEnabled = True, cons_AdaptiveService = False,
            cons_ProxyFactory = ''default''\<rparr>"
    "cons_MeshEnabled \<lparr>cons_MeshEnabled = True, cons_AdaptiveService = False, cons_ProxyFactory = ''default''\<rparr>"
    "rc_Protocol ?rc = TRIPLE example_constants" "rc_ProvidedBy ?rc \<noteq> ''''"
    by (simp_all add: example_reference_def example_constants_def)
  show ?thesis
    using mesh_url [OF h, of "example_extensions [(''POD_NAMESPACE'', ''ns1'')]"]
    by (simp add: example_reference_def example_constants_def example_extensions_def Itoa_80)
qed

subsection \<open>The panics of \<open>Refer\<close>\<close>





lemma params_set_other [simp]:
  "params (set_Path p u) = params u" "params (set_SubURL su u) = params u"
  "params (set_Protocol pr u) = params u" "params (set_Location l u) = params u"
  "params (set_PrimitiveURL pu u) = params u" "params (set_Ip_Port i po u) = params u"
  "params (set_User n pw u) = params u"
  by (simp_all add: set_Path_def set_SubURL_def set_Protocol_def set_Location_def
      set_PrimitiveURL_def set_Ip_Port_def set_User_def)





















end
